theory Spec2Isabelle
  imports Main "HOL-Library.Char_ord"
begin

section \<open>JavaScript values and strings\<close>

text \<open>
  The extension exchanges JSON payloads and JSON messages. A JavaScript value is modelled
  by the datatype below: the JSON values plus \<open>undefined\<close>. Numbers are integers here;
  the code only tests them for truthiness and uses them as keys. An object is the list of
  its own properties, each key occurring once. A string is a list of code units, written
  with HOL characters; every separator and character class the code tests is ASCII.
\<close>

datatype jsv =
    JUndefined
  | JNull
  | JBool bool
  | JNum int
  | JStr string
  | JArr "jsv list"
  | JObj "(string \<times> jsv) list"

text \<open>\<open>Boolean(v)\<close>, the test of \<open>if (v)\<close>, \<open>!v\<close>, \<open>a && b\<close> and \<open>a || b\<close>.\<close>

fun truthy :: "jsv \<Rightarrow> bool" where
  "truthy JUndefined = False"
| "truthy JNull = False"
| "truthy (JBool b) = b"
| "truthy (JNum n) = (n \<noteq> 0)"
| "truthy (JStr s) = (s \<noteq> [])"
| "truthy (JArr xs) = True"
| "truthy (JObj kvs) = True"

text \<open>\<open>Array.isArray(v)\<close>.\<close>

fun isArray :: "jsv \<Rightarrow> bool" where
  "isArray (JArr xs) = True"
| "isArray v = False"

text \<open>
  \<open>s.split(sep)\<close> for a separator of one character: the pieces between the separators,
  never the empty array.
\<close>

fun split :: "char \<Rightarrow> string \<Rightarrow> string list" where
  "split sep [] = [[]]"
| "split sep (c # cs) =
     (if c = sep then [] # split sep cs
      else (case split sep cs of [] \<Rightarrow> [[c]] | w # ws \<Rightarrow> (c # w) # ws))"

text \<open>The decimal rendering of a non-negative integer inside a template string.\<close>

definition digit_char :: "nat \<Rightarrow> char" where
  "digit_char d = ''0123456789'' ! d"

fun show_nat :: "nat \<Rightarrow> string" where
  "show_nat n =
     (if n < 10 then [digit_char n] else show_nat (n div 10) @ [digit_char (n mod 10)])"

declare show_nat.simps [simp del]

section \<open>Background service: file names\<close>

text \<open>
  The user settings, as \<open>chrome.storage.sync\<close> keeps them: the quality tier, one of the four
  values of the host settings store, and the folder switch.
\<close>

datatype quality_tier = QPreview | Q240 | Q720 | QFull

record settings =
  quality :: quality_tier
  autoCreateFolder :: bool

text \<open>The character class \<open>[a-zA-Z0-9]\<close> of the regular expression.\<close>

definition alnum :: "char \<Rightarrow> bool" where
  "alnum c \<longleftrightarrow>
     (CHR ''a'' \<le> c \<and> c \<le> CHR ''z'') \<or>
     (CHR ''A'' \<le> c \<and> c \<le> CHR ''Z'') \<or>
     (CHR ''0'' \<le> c \<and> c \<le> CHR ''9'')"

text \<open>\<open>creator.replace(/[^a-zA-Z0-9]/g, '_')\<close>: the global flag replaces every match.\<close>

definition replace_non_alnum :: "string \<Rightarrow> string" where
  "replace_non_alnum s = map (\<lambda>c. if alnum c then c else CHR ''_'') s"

text \<open>
  The body of the \<open>try\<close> block of \<open>generateFilename\<close>; \<open>None\<close> is a thrown exception.
  \<open>url.split\<close> and \<open>creator.replace\<close> exist on strings only: on \<open>null\<close> and \<open>undefined\<close>
  the property access throws, on any other JSON value the property is \<open>undefined\<close> and the
  call throws. \<open>split\<close> never returns the empty array (\<open>split_not_Nil\<close> below), so
  \<open>[0]\<close> and \<open>[urlParts.length - 1]\<close> are \<open>hd\<close> and \<open>last\<close>.
\<close>

definition generateFilename_body :: "jsv \<Rightarrow> jsv \<Rightarrow> jsv \<Rightarrow> settings \<Rightarrow> string option" where
  "generateFilename_body url creator type st =
     (case url of
        JStr u \<Rightarrow>
          (let urlParts = split CHR ''/'' (hd (split CHR ''?'' u));
               filename = last urlParts
           in (case creator of
                 JStr c \<Rightarrow>
                   (let cleanCreator = replace_non_alnum c
                    in if autoCreateFolder st
                       then Some (cleanCreator @ ''/'' @ filename)
                       else Some filename)
               | _ \<Rightarrow> None))
      | _ \<Rightarrow> None)"

text \<open>
  \<open>generateFilename\<close> with its \<open>catch\<close>; \<open>now\<close> is the value of \<open>Date.now()\<close>.
\<close>

definition generateFilename :: "nat \<Rightarrow> jsv \<Rightarrow> jsv \<Rightarrow> jsv \<Rightarrow> settings \<Rightarrow> string" where
  "generateFilename now url creator type st =
     (case generateFilename_body url creator type st of
        Some name \<Rightarrow> name
      | None \<Rightarrow> ''download_'' @ show_nat now @ ''.file'')"

text \<open>
  The specification's words for the base name: the part of the URL before any query string,
  and of that part the segment after its last slash.
\<close>

definition before_query :: "string \<Rightarrow> string" where
  "before_query u = takeWhile (\<lambda>c. c \<noteq> CHR ''?'') u"

definition last_segment :: "string \<Rightarrow> string" where
  "last_segment p = rev (takeWhile (\<lambda>c. c \<noteq> CHR ''/'') (rev p))"

fun isString :: "jsv \<Rightarrow> bool" where
  "isString (JStr s) = True"
| "isString v = False"

section \<open>Background service: messages and the download queue\<close>

text \<open>The element \<open>i\<close> an array destructuring pattern binds: \<open>undefined\<close> past the end.\<close>

definition elem :: "jsv list \<Rightarrow> nat \<Rightarrow> jsv" where
  "elem xs i = (if i < length xs then xs ! i else JUndefined)"

record ack =
  success :: bool
  error :: "string option"

text \<open>
  The listener of \<open>setupMessageListener\<close>. It returns the acknowledgement passed to
  \<open>sendResponse\<close> and, when \<open>handleDownloadRequest\<close> is called, the array it is called with.
  \<open>handleDownloadRequest\<close> is an \<open>async\<close> function that is not awaited: the call returns a
  promise and never throws into the listener, so the listener's \<open>catch\<close> is not reached.
\<close>

definition messageListener :: "jsv \<Rightarrow> ack \<times> jsv list option" where
  "messageListener message =
     (case message of
        JArr xs \<Rightarrow>
          (if 3 \<le> length xs
           then (\<lparr>success = True, error = None\<rparr>, Some xs)
           else (\<lparr>success = False, error = Some ''Invalid message format''\<rparr>, None))
      | _ \<Rightarrow> (\<lparr>success = False, error = Some ''Invalid message format''\<rparr>, None))"

record download =
  dl_url :: jsv
  dl_filename :: string
  dl_creator :: jsv
  dl_type :: jsv

text \<open>
  What the host's \<open>chrome.downloads.download\<close> promise does: it resolves with a value (the
  download id, tested for truthiness) or rejects.
\<close>

datatype download_outcome = Resolved jsv | Rejected

text \<open>
  A suspended invocation of \<open>processDownloadQueue\<close>: at the \<open>while\<close> test (only within one
  step), awaiting \<open>executeDownload\<close> of an item, or awaiting the timer of 100 ms, whose
  deadline is kept.
\<close>

datatype drainer = AtLoopTest | AwaitingDownload download | AwaitingTimer nat

text \<open>
  The trace: \<open>Enqueued\<close> marks the \<open>push\<close>; \<open>Starting\<close>, \<open>StartedOk\<close> and \<open>Failed\<close> are the
  three console lines of \<open>executeDownload\<close>, the first written when the host download is
  requested, the other two when its promise has settled; \<open>Notification\<close> is the call of
  \<open>chrome.notifications.create\<close> with its title and message.
\<close>

datatype trace_event =
    Enqueued download
  | Starting download
  | StartedOk download
  | Failed download
  | Notification string string

text \<open>
  The state of the service between two events of the event loop: the fields of the class,
  the suspended invocations of \<open>processDownloadQueue\<close>, the time in milliseconds, and the
  trace with the time of each entry.
\<close>

record bg_state =
  downloadQueue :: "download list"
  isProcessingQueue :: bool
  drainers :: "drainer list"
  clock :: nat
  trace :: "(nat \<times> trace_event) list"

definition initial :: bg_state where
  "initial = \<lparr>downloadQueue = [], isProcessingQueue = False, drainers = [], clock = 0, trace = []\<rparr>"

definition record_event :: "trace_event \<Rightarrow> bg_state \<Rightarrow> bg_state" where
  "record_event e s = s\<lparr>trace := trace s @ [(clock s, e)]\<rparr>"

text \<open>
  The invocation \<open>i\<close> of \<open>processDownloadQueue\<close> at its \<open>while\<close> test. With an item queued
  it shifts the item and calls \<open>executeDownload\<close>, which logs, requests the host download
  and suspends; with none it leaves the loop and the \<open>finally\<close> clears the flag.
\<close>

definition loop_test :: "nat \<Rightarrow> bg_state \<Rightarrow> bg_state" where
  "loop_test i s =
     (case downloadQueue s of
        [] \<Rightarrow> s\<lparr>isProcessingQueue := False,
                drainers := take i (drainers s) @ drop (Suc i) (drainers s)\<rparr>
      | d # q \<Rightarrow>
          record_event (Starting d)
            (s\<lparr>downloadQueue := q, drainers := (drainers s)[i := AwaitingDownload d]\<rparr>))"

definition processDownloadQueue :: "bg_state \<Rightarrow> bg_state" where
  "processDownloadQueue s =
     (if isProcessingQueue s \<or> downloadQueue s = [] then s
      else loop_test (length (drainers s))
             (s\<lparr>isProcessingQueue := True, drainers := drainers s @ [AtLoopTest]\<rparr>))"

text \<open>
  \<open>handleDownloadRequest\<close> from the point where \<open>getUserSettings\<close> has resolved with
  \<open>st\<close>; before that point the function only tests the URL. A missing URL throws inside the
  function's own \<open>try\<close>: it is logged and nothing else happens.
\<close>

definition handleDownloadRequest :: "jsv list \<Rightarrow> settings \<Rightarrow> bg_state \<Rightarrow> bg_state" where
  "handleDownloadRequest message st s =
     (let url = elem message 0; creator = elem message 1; type = elem message 2
      in if \<not> truthy url then s
         else
           (let filename = generateFilename (clock s) url creator type st;
                d = \<lparr>dl_url = url, dl_filename = filename, dl_creator = creator, dl_type = type\<rparr>;
                s1 = record_event (Enqueued d) (s\<lparr>downloadQueue := downloadQueue s @ [d]\<rparr>)
            in if \<not> isProcessingQueue s1 then processDownloadQueue s1 else s1))"

text \<open>
  \<open>showNotification\<close>: the call of the host's notification service, recorded in the trace.
  An exception of the call is caught inside \<open>showNotification\<close>.
\<close>

definition showNotification :: "string \<Rightarrow> string \<Rightarrow> bg_state \<Rightarrow> bg_state" where
  "showNotification title message s = record_event (Notification title message) s"

text \<open>
  \<open>executeDownload\<close> from the point where the host's promise has settled. A falsy id throws
  \<open>Download failed to start\<close>, a rejection throws as well; the \<open>catch\<close> logs and notifies.
  Nothing is thrown out of \<open>executeDownload\<close>.
\<close>

definition executeDownload_settled :: "download \<Rightarrow> download_outcome \<Rightarrow> bg_state \<Rightarrow> bg_state" where
  "executeDownload_settled d outcome s =
     (case outcome of
        Resolved downloadId \<Rightarrow>
          (if truthy downloadId then record_event (StartedOk d) s
           else showNotification ''Download Failed'' (''Failed to download '' @ dl_filename d)
                  (record_event (Failed d) s))
      | Rejected \<Rightarrow>
          showNotification ''Download Failed'' (''Failed to download '' @ dl_filename d)
            (record_event (Failed d) s))"

text \<open>
  The events of the event loop: a download message whose settings have been read, the
  settling of the host download awaited by invocation \<open>i\<close>, the timer of invocation \<open>i\<close>
  firing (never before its deadline), and time passing. An event that does not apply to the
  state (no such invocation, a timer before its deadline) changes nothing. The \<open>cleanup\<close>
  of the suspend handler, after which the host unloads the service, is not an event here.
\<close>

datatype event =
    Request jsv settings
  | Settled nat download_outcome
  | TimerFired nat
  | Tick nat

definition step :: "event \<Rightarrow> bg_state \<Rightarrow> bg_state" where
  "step e s =
     (case e of
        Request message st \<Rightarrow>
          (case snd (messageListener message) of
             Some xs \<Rightarrow> handleDownloadRequest xs st s
           | None \<Rightarrow> s)
      | Settled i outcome \<Rightarrow>
          (if i < length (drainers s)
           then (case drainers s ! i of
                   AwaitingDownload d \<Rightarrow>
                     (let s1 = executeDownload_settled d outcome s
                      in s1\<lparr>drainers := (drainers s1)[i := AwaitingTimer (clock s1 + 100)]\<rparr>)
                 | _ \<Rightarrow> s)
           else s)
      | TimerFired i \<Rightarrow>
          (if i < length (drainers s)
           then (case drainers s ! i of
                   AwaitingTimer deadline \<Rightarrow> (if deadline \<le> clock s then loop_test i s else s)
                 | _ \<Rightarrow> s)
           else s)
      | Tick dt \<Rightarrow> s\<lparr>clock := clock s + dt\<rparr>)"

fun run :: "event list \<Rightarrow> bg_state \<Rightarrow> bg_state" where
  "run [] s = s"
| "run (e # es) s = run es (step e s)"

text \<open>Readings of the trace.\<close>

fun enqueued :: "(nat \<times> trace_event) list \<Rightarrow> download list" where
  "enqueued [] = []"
| "enqueued ((t, Enqueued d) # r) = d # enqueued r"
| "enqueued (x # r) = enqueued r"

fun started :: "(nat \<times> trace_event) list \<Rightarrow> download list" where
  "started [] = []"
| "started ((t, Starting d) # r) = d # started r"
| "started (x # r) = started r"

fun start_times :: "(nat \<times> trace_event) list \<Rightarrow> nat list" where
  "start_times [] = []"
| "start_times ((t, Starting d) # r) = t # start_times r"
| "start_times (x # r) = start_times r"

fun ended :: "(nat \<times> trace_event) list \<Rightarrow> download list" where
  "ended [] = []"
| "ended ((t, StartedOk d) # r) = d # ended r"
| "ended ((t, Failed d) # r) = d # ended r"
| "ended (x # r) = ended r"

text \<open>
  No overlap: read from the left, every start is followed by the end of the same item
  before the next start; the last start may still be open.
\<close>

fun sequential :: "(nat \<times> trace_event) list \<Rightarrow> download option \<Rightarrow> bool" where
  "sequential [] open = True"
| "sequential ((t, Starting d) # r) open = (open = None \<and> sequential r (Some d))"
| "sequential ((t, StartedOk d) # r) open = (open = Some d \<and> sequential r None)"
| "sequential ((t, Failed d) # r) open = (open = Some d \<and> sequential r None)"
| "sequential (x # r) open = sequential r open"

text \<open>Consecutive entries at least \<open>gap\<close> apart.\<close>

fun spaced :: "nat \<Rightarrow> nat list \<Rightarrow> bool" where
  "spaced gap (t # t' # r) = (t + gap \<le> t' \<and> spaced gap (t' # r))"
| "spaced gap r = True"

text \<open>
  A schedule that lets the host answer: for each outcome in turn, the download awaited by
  invocation 0 settles with it, 100 ms pass and the timer fires. The drain schedule first
  lets a pending timer fire.
\<close>

fun rounds :: "download_outcome list \<Rightarrow> event list" where
  "rounds [] = []"
| "rounds (outcome # outcomes) = [Settled 0 outcome, Tick 100, TimerFired 0] @ rounds outcomes"

definition drain_schedule :: "download_outcome list \<Rightarrow> event list" where
  "drain_schedule outcomes = Tick 100 # TimerFired 0 # rounds outcomes"

text \<open>More readings of the trace: the failed items, and the notifications requested.\<close>

fun failed :: "(nat \<times> trace_event) list \<Rightarrow> download list" where
  "failed [] = []"
| "failed ((t, Failed d) # r) = d # failed r"
| "failed (x # r) = failed r"

fun notifications :: "(nat \<times> trace_event) list \<Rightarrow> (string \<times> string) list" where
  "notifications [] = []"
| "notifications ((t, Notification title message) # r) = (title, message) # notifications r"
| "notifications (x # r) = notifications r"

definition failure_notice :: "download \<Rightarrow> string \<times> string" where
  "failure_notice d = (''Download Failed'', ''Failed to download '' @ dl_filename d)"

fun failing :: "download_outcome \<Rightarrow> bool" where
  "failing Rejected = True"
| "failing (Resolved downloadId) = (\<not> truthy downloadId)"

text \<open>The item whose start is the last entry of its kind with no end after it.\<close>

fun open_after :: "(nat \<times> trace_event) list \<Rightarrow> download option \<Rightarrow> download option" where
  "open_after [] open = open"
| "open_after ((t, Starting d) # r) open = open_after r (Some d)"
| "open_after ((t, StartedOk d) # r) open = open_after r None"
| "open_after ((t, Failed d) # r) open = open_after r None"
| "open_after (x # r) open = open_after r open"

text \<open>
  The invariant of the event loop. The flag is set exactly while one invocation of
  \<open>processDownloadQueue\<close> is suspended; the three situations are: no invocation, one
  awaiting the download of \<open>d\<close>, one awaiting its timer.
\<close>

definition idle :: "bg_state \<Rightarrow> bool" where
  "idle s \<longleftrightarrow>
     drainers s = [] \<and> \<not> isProcessingQueue s \<and> downloadQueue s = [] \<and>
     open_after (trace s) None = None \<and>
     (\<forall>t \<in> set (start_times (trace s)). t + 100 \<le> clock s)"

definition downloading :: "bg_state \<Rightarrow> download \<Rightarrow> bool" where
  "downloading s d \<longleftrightarrow>
     drainers s = [AwaitingDownload d] \<and> isProcessingQueue s \<and>
     open_after (trace s) None = Some d \<and>
     (\<forall>t \<in> set (start_times (trace s)). t \<le> clock s)"

definition cooling :: "bg_state \<Rightarrow> nat \<Rightarrow> bool" where
  "cooling s deadline \<longleftrightarrow>
     drainers s = [AwaitingTimer deadline] \<and> isProcessingQueue s \<and>
     open_after (trace s) None = None \<and> deadline \<le> clock s + 100 \<and>
     (\<forall>t \<in> set (start_times (trace s)). t + 100 \<le> deadline)"

definition trace_ok :: "bg_state \<Rightarrow> bool" where
  "trace_ok s \<longleftrightarrow>
     started (trace s) @ downloadQueue s = enqueued (trace s) \<and>
     sequential (trace s) None \<and>
     spaced 100 (start_times (trace s)) \<and>
     ended (trace s) @ (case open_after (trace s) None of None \<Rightarrow> [] | Some d \<Rightarrow> [d])
       = started (trace s)"

definition queue_inv :: "bg_state \<Rightarrow> bool" where
  "queue_inv s \<longleftrightarrow>
     trace_ok s \<and> (idle s \<or> (\<exists>d. downloading s d) \<or> (\<exists>deadline. cooling s deadline))"

text \<open>
  The end-to-end scenario of the specification: three requests for the creator \<open>Bob\<close> with
  folder organization on. In the drain schedule used with it the second download fails.
\<close>

definition scenario_requests :: "event list" where
  "scenario_requests =
     [Request (JArr [JStr ''https://cdn.example/a/one.jpg?t=1'', JStr ''Bob'', JStr ''download''])
        \<lparr>quality = QFull, autoCreateFolder = True\<rparr>,
      Request (JArr [JStr ''https://cdn.example/a/two.jpg'', JStr ''Bob'', JStr ''download''])
        \<lparr>quality = QFull, autoCreateFolder = True\<rparr>,
      Request (JArr [JStr ''https://cdn.example/a/three.mp4?t=3'', JStr ''Bob'', JStr ''download video''])
        \<lparr>quality = QFull, autoCreateFolder = True\<rparr>]"

definition scenario_outcomes :: "download_outcome list" where
  "scenario_outcomes = [Resolved (JNum 1), Rejected, Resolved (JNum 3)]"

section \<open>Background service: interception and payload normalization\<close>

text \<open>\<open>s.includes(p)\<close>: \<open>p\<close> occurs in \<open>s\<close>.\<close>

definition starts_with :: "string \<Rightarrow> string \<Rightarrow> bool" where
  "starts_with s p \<longleftrightarrow> take (length p) s = p"

fun str_includes :: "string \<Rightarrow> string \<Rightarrow> bool" where
  "str_includes [] p = (p = [])"
| "str_includes (c # cs) p = (starts_with (c # cs) p \<or> str_includes cs p)"

text \<open>
  The regular expression of \<open>handleApiRequest\<close>,
  \<open>/(onlyfans\.com\/api2\/v2\/(users|posts|chats)|onlyfans\.com\/[0-9]+\/)/\<close>, searched
  anywhere in the URL. The second alternative is \<open>onlyfans.com/\<close>, one or more digits, and
  a slash.
\<close>

definition digit :: "char \<Rightarrow> bool" where
  "digit c \<longleftrightarrow> CHR ''0'' \<le> c \<and> c \<le> CHR ''9''"

definition numeric_path_here :: "string \<Rightarrow> bool" where
  "numeric_path_here s \<longleftrightarrow>
     starts_with s ''onlyfans.com/'' \<and>
     (let r = drop (length ''onlyfans.com/'') s
      in takeWhile digit r \<noteq> [] \<and> starts_with (dropWhile digit r) ''/'')"

fun somewhere :: "(string \<Rightarrow> bool) \<Rightarrow> string \<Rightarrow> bool" where
  "somewhere P [] = P []"
| "somewhere P (c # cs) = (P (c # cs) \<or> somewhere P cs)"

definition isRelevantEndpoint :: "string \<Rightarrow> bool" where
  "isRelevantEndpoint url \<longleftrightarrow>
     str_includes url ''onlyfans.com/api2/v2/users'' \<or>
     str_includes url ''onlyfans.com/api2/v2/posts'' \<or>
     str_includes url ''onlyfans.com/api2/v2/chats'' \<or>
     somewhere numeric_path_here url"

text \<open>
  \<open>obj[k] = v\<close> on an object kept as the list of its properties, and \<open>map.set(k, v)\<close> on a
  \<open>Map\<close> kept as the list of its entries: an existing key keeps its place.
\<close>

fun assign :: "('k \<times> 'v) list \<Rightarrow> 'k \<Rightarrow> 'v \<Rightarrow> ('k \<times> 'v) list" where
  "assign [] k v = [(k, v)]"
| "assign ((k', v') # r) k v = (if k' = k then (k, v) # r else (k', v') # assign r k v)"

definition excludedHeaders :: "string list" where
  "excludedHeaders =
     [''Sec-Fetch-Site'', ''Sec-Fetch-Mode'', ''Sec-Fetch-Dest'', ''Sec-Fetch-User'',
      ''DNT'', ''User-Agent'']"

fun extractHeaders_loop ::
  "(string \<times> string) list \<Rightarrow> (string \<times> string) list \<Rightarrow> (string \<times> string) list" where
  "extractHeaders_loop headers [] = headers"
| "extractHeaders_loop headers ((name, val) # rest) =
     (if name \<in> set excludedHeaders then extractHeaders_loop headers rest
      else extractHeaders_loop (assign headers name val) rest)"

definition extractHeaders :: "(string \<times> string) list \<Rightarrow> (string \<times> string) list" where
  "extractHeaders requestHeaders = extractHeaders_loop [] requestHeaders"

text \<open>The \<open>details\<close> of an observed outbound request, and a re-issued fetch.\<close>

record details =
  req_tabId :: int
  req_url :: string
  req_headers :: "(string \<times> string) list"

record refetch =
  fetch_url :: string
  fetch_headers :: "(string \<times> string) list"
  fetch_tab :: int

text \<open>
  \<open>fetchApiData\<close> up to its request: a GET of the URL with the fragment appended.
\<close>

definition fetchApiData_request :: "string \<Rightarrow> (string \<times> string) list \<Rightarrow> int \<Rightarrow> refetch" where
  "fetchApiData_request url headers tab =
     \<lparr>fetch_url = url @ ''#trilobite'', fetch_headers = headers, fetch_tab = tab\<rparr>"

text \<open>
  \<open>handleApiRequest\<close>: the fetch that \<open>sendToContentScript\<close> issues through
  \<open>fetchApiData\<close>, or none when the request is skipped.
\<close>

definition handleApiRequest :: "details \<Rightarrow> refetch option" where
  "handleApiRequest d =
     (if req_tabId d < 0 \<or> str_includes (req_url d) ''#trilobite'' then None
      else if \<not> isRelevantEndpoint (req_url d) then None
      else (let headers = extractHeaders (req_headers d)
            in Some (fetchApiData_request (req_url d) headers (req_tabId d))))"

text \<open>
  The request the host reports when a re-issued fetch goes out: the URL is the one given
  to \<open>fetch\<close>; the tab and the headers are the host's.
\<close>

definition observed :: "int \<Rightarrow> (string \<times> string) list \<Rightarrow> refetch \<Rightarrow> details" where
  "observed tab hs f = \<lparr>req_tabId = tab, req_url = fetch_url f, req_headers = hs\<rparr>"

text \<open>The fetches issued for a sequence of observed requests.\<close>

fun refetches :: "details list \<Rightarrow> refetch list" where
  "refetches [] = []"
| "refetches (d # ds) =
     (case handleApiRequest d of None \<Rightarrow> refetches ds | Some f \<Rightarrow> f # refetches ds)"

text \<open>
  Property access. \<open>null\<close> and \<open>undefined\<close> have no properties: reading one throws a
  TypeError (\<open>None\<close> in \<open>get_prop\<close>). An object gives the value of its own property or
  \<open>undefined\<close>. The names the code reads (\<open>list\<close>, \<open>id\<close>, \<open>media\<close>, \<open>type\<close>, \<open>source\<close>,
  \<open>videoSources\<close>, \<open>preview\<close>, \<open>squarePreview\<close>, \<open>thumb\<close>, \<open>src\<close>) are not properties of
  arrays, strings, numbers or booleans, which give \<open>undefined\<close>.
\<close>

fun nullish :: "jsv \<Rightarrow> bool" where
  "nullish JUndefined = True"
| "nullish JNull = True"
| "nullish v = False"

fun own_prop :: "jsv \<Rightarrow> string \<Rightarrow> jsv" where
  "own_prop (JObj kvs) k = (case map_of kvs k of None \<Rightarrow> JUndefined | Some v \<Rightarrow> v)"
| "own_prop v k = JUndefined"

definition get_prop :: "jsv \<Rightarrow> string \<Rightarrow> jsv option" where
  "get_prop v k = (if nullish v then None else Some (own_prop v k))"

text \<open>
  The body of the \<open>try\<close> block of \<open>processApiResponse\<close> (\<open>None\<close> is a thrown exception),
  and the function with its \<open>catch\<close>.
\<close>

definition processApiResponse_body :: "jsv \<Rightarrow> jsv option" where
  "processApiResponse_body data =
     (if isArray data then Some data
      else (case get_prop data ''list'' of
              None \<Rightarrow> None
            | Some list \<Rightarrow>
                (if truthy list then Some list
                 else (case get_prop data ''id'' of
                         None \<Rightarrow> None
                       | Some ident \<Rightarrow>
                           (if truthy ident \<and> isArray (own_prop data ''media'') then Some data
                            else Some JNull)))))"

definition processApiResponse :: "jsv \<Rightarrow> jsv" where
  "processApiResponse data =
     (case processApiResponse_body data of Some r \<Rightarrow> r | None \<Rightarrow> JNull)"

text \<open>
  The message \<open>sendToContentScript\<close> sends to the tab, given the value \<open>fetchApiData\<close>
  returned (the parsed JSON, or \<open>null\<close> after a failure); \<open>None\<close> when it returns early.
\<close>

record api_message =
  msg_data :: jsv
  msg_isForDm :: bool
  msg_headers :: "(string \<times> string) list"

definition sendToContentScript ::
  "string \<Rightarrow> (string \<times> string) list \<Rightarrow> jsv \<Rightarrow> api_message option" where
  "sendToContentScript url headers response =
     (if \<not> truthy response then None
      else (let data = processApiResponse response
            in if \<not> truthy data then None
               else Some \<lparr>msg_data = data, msg_isForDm = str_includes url ''messages'',
                          msg_headers = headers\<rparr>))"

section \<open>Content script: the correlation stores\<close>

text \<open>
  The three \<open>Map\<close>s of the content script, each the list of its entries in insertion order,
  with the user settings and the class that marks an injected control. \<open>Map\<close> compares keys
  with SameValueZero, which on strings and on numbers is equality of the values; the lookups
  of the code use string keys.
\<close>

record cs_state =
  mediaStore :: "(jsv \<times> jsv) list"
  videoStore :: "(jsv \<times> jsv) list"
  imageStore :: "(jsv \<times> jsv) list"
  cs_settings :: settings
  uniqueClass :: string

text \<open>How a statement ends, and \<open>array.forEach\<close>, which a throwing callback leaves.\<close>

datatype completion = Completed | Thrown

fun forEach :: "('a \<Rightarrow> 's \<Rightarrow> completion \<times> 's) \<Rightarrow> 'a list \<Rightarrow> 's \<Rightarrow> completion \<times> 's" where
  "forEach f [] s = (Completed, s)"
| "forEach f (x # xs) s =
     (case f x s of
        (Completed, s') \<Rightarrow> forEach f xs s'
      | (Thrown, s') \<Rightarrow> (Thrown, s'))"

text \<open>
  \<open>cleanUrl\<close>: \<open>url ? url.split('?')[0] : url\<close>. A truthy value that is not a string has no
  \<open>split\<close>, and the call throws (\<open>None\<close>).
\<close>

definition cleanUrl :: "jsv \<Rightarrow> jsv option" where
  "cleanUrl url =
     (if \<not> truthy url then Some url
      else (case url of JStr s \<Rightarrow> Some (JStr (hd (split CHR ''?'' s))) | _ \<Rightarrow> None))"

text \<open>
  \<open>v[n]\<close> for a number \<open>n\<close> and \<open>v\<close> neither \<open>null\<close> nor \<open>undefined\<close>: the property named by
  the decimal digits of \<open>n\<close> on an object, the element on an array, the character on a
  string.
\<close>

fun own_index :: "jsv \<Rightarrow> nat \<Rightarrow> jsv" where
  "own_index (JObj kvs) n = (case map_of kvs (show_nat n) of None \<Rightarrow> JUndefined | Some v \<Rightarrow> v)"
| "own_index (JArr xs) n = (if n < length xs then xs ! n else JUndefined)"
| "own_index (JStr s) n = (if n < length s then JStr [s ! n] else JUndefined)"
| "own_index v n = JUndefined"

text \<open>\<open>v?.k\<close> and \<open>v?.[n]\<close>.\<close>

definition chain_prop :: "jsv \<Rightarrow> string \<Rightarrow> jsv" where
  "chain_prop v k = (if nullish v then JUndefined else own_prop v k)"

definition chain_index :: "jsv \<Rightarrow> nat \<Rightarrow> jsv" where
  "chain_index v n = (if nullish v then JUndefined else own_index v n)"

text \<open>
  The quality map \<open>processVideoMedia\<close> builds for a media entry (an entry whose \<open>type\<close> has
  been read, hence neither \<open>null\<close> nor \<open>undefined\<close>).
\<close>

definition videoMap_of :: "jsv \<Rightarrow> (string \<times> jsv) list" where
  "videoMap_of media =
     (let full = chain_prop (own_prop media ''source'') ''source'';
          m0 = (if truthy full then assign [] ''full'' full else []);
          videoSources = own_prop media ''videoSources''
      in if truthy videoSources
         then (let m1 = (if truthy (own_index videoSources 240)
                         then assign m0 ''240'' (own_index videoSources 240) else m0)
               in if truthy (own_index videoSources 720)
                  then assign m1 ''720'' (own_index videoSources 720) else m1)
         else m0)"

definition previews_of :: "jsv \<Rightarrow> jsv list" where
  "previews_of media =
     filter truthy [own_prop media ''preview'', own_prop media ''squarePreview'',
                    own_prop media ''thumb'']"

definition processVideoMedia :: "jsv \<Rightarrow> cs_state \<Rightarrow> completion \<times> cs_state" where
  "processVideoMedia media s =
     (let videoMap = videoMap_of media
      in forEach
           (\<lambda>preview s.
              if truthy preview
              then (case cleanUrl preview of
                      None \<Rightarrow> (Thrown, s)
                    | Some key \<Rightarrow>
                        (Completed, s\<lparr>imageStore := assign (imageStore s) key (JObj videoMap)\<rparr>))
              else (Completed, s))
           (previews_of media) s)"

definition processImageMedia :: "jsv \<Rightarrow> cs_state \<Rightarrow> completion \<times> cs_state" where
  "processImageMedia media s =
     forEach
       (\<lambda>preview s.
          if truthy preview \<and> truthy (own_prop media ''src'')
          then (case cleanUrl preview of
                  None \<Rightarrow> (Thrown, s)
                | Some key \<Rightarrow>
                    (Completed,
                     s\<lparr>imageStore := assign (imageStore s) key (own_prop media ''src'')\<rparr>))
          else (Completed, s))
       (previews_of media) s"

text \<open>The store \<open>processApiData\<close> passes on: one of two fields of the state.\<close>

datatype store_name = MediaStore | VideoStore

definition store_set :: "store_name \<Rightarrow> jsv \<Rightarrow> jsv \<Rightarrow> cs_state \<Rightarrow> cs_state" where
  "store_set store k v s =
     (case store of
        MediaStore \<Rightarrow> s\<lparr>mediaStore := assign (mediaStore s) k v\<rparr>
      | VideoStore \<Rightarrow> s\<lparr>videoStore := assign (videoStore s) k v\<rparr>)"

definition processMediaItem :: "jsv \<Rightarrow> store_name \<Rightarrow> cs_state \<Rightarrow> completion \<times> cs_state" where
  "processMediaItem item store s =
     (case get_prop item ''id'' of
        None \<Rightarrow> (Thrown, s)
      | Some ident \<Rightarrow>
          (let s1 = (if truthy ident then store_set store ident item s else s)
           in (case own_prop item ''media'' of
                 JArr entries \<Rightarrow>
                   forEach
                     (\<lambda>media s.
                        case get_prop media ''type'' of
                          None \<Rightarrow> (Thrown, s)
                        | Some t \<Rightarrow>
                            if t = JStr ''video'' then processVideoMedia media s
                            else processImageMedia media s)
                     entries s1
               | _ \<Rightarrow> (Completed, s1))))"

text \<open>
  The body of the \<open>try\<close> block of \<open>processApiData\<close>, and the function with its \<open>catch\<close>,
  which logs and keeps what was stored before the exception.
\<close>

definition processApiData_body :: "jsv \<Rightarrow> bool \<Rightarrow> cs_state \<Rightarrow> completion \<times> cs_state" where
  "processApiData_body data isForDm s =
     (let store = (if isForDm then VideoStore else MediaStore)
      in (case data of
            JArr items \<Rightarrow> forEach (\<lambda>item. processMediaItem item store) items s
          | _ \<Rightarrow>
              (case get_prop data ''id'' of
                 None \<Rightarrow> (Thrown, s)
               | Some ident \<Rightarrow>
                   if truthy ident \<and> isArray (own_prop data ''media'')
                   then processMediaItem data store s
                   else (Completed, s))))"

definition processApiData :: "jsv \<Rightarrow> bool \<Rightarrow> cs_state \<Rightarrow> cs_state" where
  "processApiData data isForDm s = snd (processApiData_body data isForDm s)"

text \<open>
  The message listener of the content script on a message of the background service, and
  the path of a fetched response from \<open>sendToContentScript\<close> to the stores.
\<close>

definition contentListener :: "api_message \<Rightarrow> cs_state \<Rightarrow> cs_state" where
  "contentListener message s = processApiData (msg_data message) (msg_isForDm message) s"

definition delivered :: "string \<Rightarrow> (string \<times> string) list \<Rightarrow> jsv \<Rightarrow> cs_state \<Rightarrow> cs_state" where
  "delivered url headers response s =
     (case sendToContentScript url headers response of
        None \<Rightarrow> s
      | Some message \<Rightarrow> contentListener message s)"

definition fresh :: "settings \<Rightarrow> string \<Rightarrow> cs_state" where
  "fresh st cls =
     \<lparr>mediaStore = [], videoStore = [], imageStore = [], cs_settings = st, uniqueClass = cls\<rparr>"

text \<open>
  The specification's three payload shapes: an array, an envelope whose \<open>list\<close> is an array,
  a single object carrying an id and its own media array.
\<close>

definition spec_shape :: "jsv \<Rightarrow> bool" where
  "spec_shape data \<longleftrightarrow>
     isArray data \<or>
     (\<exists>kvs. data = JObj kvs \<and> isArray (own_prop data ''list'')) \<or>
     (\<exists>kvs. data = JObj kvs \<and> truthy (own_prop data ''id'') \<and> isArray (own_prop data ''media''))"

text \<open>Two states that differ at most in \<open>videoStore\<close> and \<open>imageStore\<close>.\<close>

definition same_media :: "cs_state \<Rightarrow> cs_state \<Rightarrow> bool" where
  "same_media s s' \<longleftrightarrow>
     mediaStore s' = mediaStore s \<and> cs_settings s' = cs_settings s \<and> uniqueClass s' = uniqueClass s"

section \<open>Content script: the document and the resolution of URLs\<close>

text \<open>
  An element of the document: its tag in lower case, its class list, its content
  attributes (what \<open>getAttribute\<close> reads), the value of its \<open>src\<close> property as the host
  computes it (the empty string when the element has none), and its child elements.
\<close>

datatype element =
  Element (tag: string) (classes: "string list") (attrs: "(string \<times> string) list")
    (src: string) (children: "element list")

text \<open>The descendants of an element in document order.\<close>

fun descendants :: "element \<Rightarrow> element list" where
  "descendants (Element t cs ats s ch) = concat (map (\<lambda>c. c # descendants c) ch)"

text \<open>A selector is the set of elements it matches.\<close>

definition querySelectorAll :: "(element \<Rightarrow> bool) \<Rightarrow> element \<Rightarrow> element list" where
  "querySelectorAll sel e = filter sel (descendants e)"

definition querySelector :: "(element \<Rightarrow> bool) \<Rightarrow> element \<Rightarrow> element option" where
  "querySelector sel e = (case querySelectorAll sel e of [] \<Rightarrow> None | x # xs \<Rightarrow> Some x)"

definition getAttribute :: "element \<Rightarrow> string \<Rightarrow> string option" where
  "getAttribute e name = map_of (attrs e) name"

definition has_tag :: "string \<Rightarrow> element \<Rightarrow> bool" where
  "has_tag t e \<longleftrightarrow> tag e = t"

definition has_class :: "string \<Rightarrow> element \<Rightarrow> bool" where
  "has_class c e \<longleftrightarrow> c \<in> set (classes e)"

text \<open>\<open>video.vjs-tech\<close>, \<open>source[label="original"]\<close>, \<open>[data-video], [data-src], [data-url]\<close>.\<close>

definition sel_vjs_tech :: "element \<Rightarrow> bool" where
  "sel_vjs_tech e \<longleftrightarrow> has_tag ''video'' e \<and> has_class ''vjs-tech'' e"

definition sel_original :: "element \<Rightarrow> bool" where
  "sel_original e \<longleftrightarrow> has_tag ''source'' e \<and> getAttribute e ''label'' = Some ''original''"

definition sel_data :: "element \<Rightarrow> bool" where
  "sel_data e \<longleftrightarrow>
     getAttribute e ''data-video'' \<noteq> None \<or> getAttribute e ''data-src'' \<noteq> None \<or>
     getAttribute e ''data-url'' \<noteq> None"

text \<open>
  \<open>e && e.src\<close> for the result of \<open>querySelector\<close>, and the value of an attribute that may
  be absent, as tested by \<open>if (value)\<close>: the empty string is the falsy case.
\<close>

definition src_of :: "element option \<Rightarrow> string" where
  "src_of e = (case e of None \<Rightarrow> [] | Some x \<Rightarrow> src x)"

definition str_of :: "string option \<Rightarrow> string" where
  "str_of v = (case v of None \<Rightarrow> [] | Some s \<Rightarrow> s)"

text \<open>
  The result of a resolution: a URL, \<open>null\<close> (\<open>NotFound\<close>), or a thrown TypeError.
\<close>

datatype 'a lookup = Found 'a | NotFound | Raised

text \<open>
  The expression \<open>qualityMap[this.settings.quality] || qualityMap.full\<close> for one media
  entry: the map has the keys \<open>full\<close>, \<open>240\<close> and \<open>720\<close>.
\<close>

definition qualityUrl :: "quality_tier \<Rightarrow> jsv \<Rightarrow> jsv" where
  "qualityUrl q media =
     (let full = chain_prop (own_prop media ''source'') ''source'';
          v240 = chain_index (own_prop media ''videoSources'') 240;
          v720 = chain_index (own_prop media ''videoSources'') 720;
          preferred = (case q of QFull \<Rightarrow> full | Q240 \<Rightarrow> v240 | Q720 \<Rightarrow> v720
                       | QPreview \<Rightarrow> JUndefined)
      in if truthy preferred then preferred else full)"

text \<open>The loop \<open>for (const media of mediaList)\<close> of Method 2.\<close>

fun mediaLoop :: "quality_tier \<Rightarrow> jsv list \<Rightarrow> jsv lookup" where
  "mediaLoop q [] = NotFound"
| "mediaLoop q (media # rest) =
     (case get_prop media ''type'' of
        None \<Rightarrow> Raised
      | Some t \<Rightarrow>
          if t = JStr ''video''
          then (let videoUrl = qualityUrl q media
                in if truthy videoUrl then Found videoUrl else mediaLoop q rest)
          else mediaLoop q rest)"

text \<open>
  Method 2 of \<open>extractVideoUrl\<close>: the lookup in \<open>mediaStore\<close> by the post's \<open>data-id\<close>.
  \<open>postData.media || []\<close> is iterated: an array gives its elements, a string its
  characters (none of which has a \<open>type\<close>), and a number, \<open>true\<close> or an object is not
  iterable, which throws.
\<close>

definition storeLookup :: "cs_state \<Rightarrow> element option \<Rightarrow> jsv lookup" where
  "storeLookup st post =
     (let postId = str_of (Option.bind post (\<lambda>p. getAttribute p ''data-id''))
      in if postId \<noteq> [] \<and> map_of (mediaStore st) (JStr postId) \<noteq> None
         then (case map_of (mediaStore st) (JStr postId) of
                 None \<Rightarrow> NotFound
               | Some postData \<Rightarrow>
                   (case get_prop postData ''media'' of
                      None \<Rightarrow> Raised
                    | Some media \<Rightarrow>
                        if \<not> truthy media then NotFound
                        else (case media of
                                JArr mediaList \<Rightarrow> mediaLoop (quality (cs_settings st)) mediaList
                              | JStr s \<Rightarrow> NotFound
                              | _ \<Rightarrow> Raised)))
         else NotFound)"

text \<open>The loops of Method 5 and Method 6.\<close>

fun firstSrc :: "element list \<Rightarrow> string option" where
  "firstSrc [] = None"
| "firstSrc (source # rest) = (if src source \<noteq> [] then Some (src source) else firstSrc rest)"

fun scanVideos :: "element list \<Rightarrow> string option" where
  "scanVideos [] = None"
| "scanVideos (video # rest) =
     (if src video \<noteq> [] then Some (src video)
      else (case firstSrc (querySelectorAll (has_tag ''source'') video) of
              Some u \<Rightarrow> Some u
            | None \<Rightarrow> scanVideos rest))"

definition dataUrl :: "element \<Rightarrow> string" where
  "dataUrl e =
     (if str_of (getAttribute e ''data-video'') \<noteq> [] then str_of (getAttribute e ''data-video'')
      else if str_of (getAttribute e ''data-src'') \<noteq> [] then str_of (getAttribute e ''data-src'')
      else str_of (getAttribute e ''data-url''))"

fun scanData :: "element list \<Rightarrow> string option" where
  "scanData [] = None"
| "scanData (e # rest) =
     (if dataUrl e \<noteq> [] \<and> str_includes (dataUrl e) ''http'' then Some (dataUrl e)
      else scanData rest)"

text \<open>\<open>extractVideoUrl(wrapper, post)\<close>; \<open>post\<close> may be \<open>null\<close>.\<close>

definition extractVideoUrl :: "cs_state \<Rightarrow> element \<Rightarrow> element option \<Rightarrow> jsv lookup" where
  "extractVideoUrl st wrapper post =
     (let video = querySelector sel_vjs_tech wrapper;
          source = Option.bind video (querySelector sel_original);
          anySource = Option.bind video (querySelector (has_tag ''source''))
      in if src_of source \<noteq> [] then Found (JStr (src_of source))
         else if src_of anySource \<noteq> [] then Found (JStr (src_of anySource))
         else if src_of video \<noteq> [] then Found (JStr (src_of video))
         else
           (case storeLookup st post of
              Found videoUrl \<Rightarrow> Found videoUrl
            | Raised \<Rightarrow> Raised
            | NotFound \<Rightarrow>
                (let videoElement = querySelector (has_tag ''video'') wrapper;
                     dataSrc = str_of (Option.bind videoElement (\<lambda>v. getAttribute v ''data-src''));
                     dataVideo = str_of (Option.bind videoElement (\<lambda>v. getAttribute v ''data-video''));
                     wrapperDataSrc = str_of (getAttribute wrapper ''data-src'')
                 in if dataSrc \<noteq> [] then Found (JStr dataSrc)
                    else if dataVideo \<noteq> [] then Found (JStr dataVideo)
                    else if wrapperDataSrc \<noteq> [] then Found (JStr wrapperDataSrc)
                    else
                      (case scanVideos (querySelectorAll (has_tag ''video'') wrapper) of
                         Some u \<Rightarrow> Found (JStr u)
                       | None \<Rightarrow>
                           (case scanData (querySelectorAll sel_data wrapper) of
                              Some u \<Rightarrow> Found (JStr u)
                            | None \<Rightarrow> NotFound)))))"

text \<open>\<open>extractVideoUrlFromElement(video)\<close>; \<open>None\<close> is \<open>null\<close>.\<close>

definition extractVideoUrlFromElement :: "element \<Rightarrow> string option" where
  "extractVideoUrlFromElement video =
     (let source = querySelector sel_original video;
          anySource = querySelector (has_tag ''source'') video;
          dataSrc = str_of (getAttribute video ''data-src'');
          dataVideo = str_of (getAttribute video ''data-video'')
      in if src_of source \<noteq> [] then Some (src_of source)
         else if src_of anySource \<noteq> [] then Some (src_of anySource)
         else if src video \<noteq> [] then Some (src video)
         else if dataSrc \<noteq> [] then Some dataSrc
         else if dataVideo \<noteq> [] then Some dataVideo
         else None)"





text \<open>\<open>extractVideoUrlFromDimensionPlayer\<close> and \<open>extractVideoUrlFromVideoJsPlayer\<close>.\<close>

fun firstFromElement :: "element list \<Rightarrow> string option" where
  "firstFromElement [] = None"
| "firstFromElement (video # rest) =
     (case extractVideoUrlFromElement video of
        Some u \<Rightarrow> Some u
      | None \<Rightarrow> firstFromElement rest)"

fun firstHttpSrc :: "element list \<Rightarrow> string option" where
  "firstHttpSrc [] = None"
| "firstHttpSrc (source # rest) =
     (if src source \<noteq> [] \<and> str_includes (src source) ''http'' then Some (src source)
      else firstHttpSrc rest)"

definition extractVideoUrlFromDimensionPlayer :: "element \<Rightarrow> string option" where
  "extractVideoUrlFromDimensionPlayer player =
     (case firstFromElement (querySelectorAll (has_tag ''video'') player) of
        Some u \<Rightarrow> Some u
      | None \<Rightarrow>
          (case Option.bind (querySelector (has_class ''vjs-tech'') player)
                  extractVideoUrlFromElement of
             Some u \<Rightarrow> Some u
           | None \<Rightarrow>
               (let dataSrc = str_of (getAttribute player ''data-src'');
                    dataVideo = str_of (getAttribute player ''data-video'')
                in if dataSrc \<noteq> [] \<and> str_includes dataSrc ''http'' then Some dataSrc
                   else if dataVideo \<noteq> [] \<and> str_includes dataVideo ''http'' then Some dataVideo
                   else firstHttpSrc (querySelectorAll (has_tag ''source'') player))))"

definition extractVideoUrlFromVideoJsPlayer :: "element \<Rightarrow> string option" where
  "extractVideoUrlFromVideoJsPlayer player =
     (case Option.bind (querySelector (has_class ''vjs-tech'') player)
             extractVideoUrlFromElement of
        Some u \<Rightarrow> Some u
      | None \<Rightarrow>
          (case firstFromElement (querySelectorAll (has_tag ''video'') player) of
             Some u \<Rightarrow> Some u
           | None \<Rightarrow>
               (let originalSource = querySelector sel_original player;
                    anySource = querySelector (has_tag ''source'') player
                in if src_of originalSource \<noteq> [] then Some (src_of originalSource)
                   else if src_of anySource \<noteq> [] then Some (src_of anySource)
                   else None)))"

section \<open>Content script: the injection of controls\<close>

text \<open>
  A download request bound to a control: the URL, the creator and the label. The creator
  is what \<open>getCreatorUsername\<close> reads from the page; it is a parameter here.
\<close>

type_synonym media_item = "jsv \<times> string \<times> string"

text \<open>
  \<open>isVideoThumbnail\<close>. The distance test on the bounding rectangles is the host's layout;
  \<open>near wrapper img\<close> stands for \<open>distance < 100\<close>.
\<close>

definition isVideoThumbnail ::
  "(element \<Rightarrow> element \<Rightarrow> bool) \<Rightarrow> element \<Rightarrow> element list \<Rightarrow> bool" where
  "isVideoThumbnail near img videoWrappers \<longleftrightarrow>
     list_ex (\<lambda>wrapper. near wrapper img) videoWrappers \<or>
     str_includes (src img) ''thumb'' \<or> str_includes (src img) ''preview'' \<or>
     str_includes (src img) ''small''"

text \<open>
  \<open>extractMediaFromPost\<close>: the loop over the video wrappers (\<open>None\<close> when
  \<open>extractVideoUrl\<close> throws), then the images.
\<close>

fun videoLoop :: "cs_state \<Rightarrow> element \<Rightarrow> string \<Rightarrow> element list \<Rightarrow> media_item list option" where
  "videoLoop st post creator [] = Some []"
| "videoLoop st post creator (wrapper # rest) =
     (case extractVideoUrl st wrapper (Some post) of
        Raised \<Rightarrow> None
      | NotFound \<Rightarrow> videoLoop st post creator rest
      | Found videoUrl \<Rightarrow>
          map_option (\<lambda>r. (videoUrl, creator, ''download video'') # r)
            (videoLoop st post creator rest))"

definition sel_video_wrapper :: "element \<Rightarrow> bool" where
  "sel_video_wrapper e \<longleftrightarrow> has_tag ''div'' e \<and> has_class ''video-wrapper'' e"

definition sel_media_img :: "element \<Rightarrow> bool" where
  "sel_media_img e \<longleftrightarrow> has_tag ''img'' e \<and> has_class ''b-post__media__img'' e"

definition extractMediaFromPost ::
  "cs_state \<Rightarrow> string \<Rightarrow> (element \<Rightarrow> element \<Rightarrow> bool) \<Rightarrow> element \<Rightarrow> media_item list option" where
  "extractMediaFromPost st creator near post =
     (let videoWrappers = querySelectorAll sel_video_wrapper post
      in (case videoLoop st post creator videoWrappers of
            None \<Rightarrow> None
          | Some videos \<Rightarrow>
              (let hasVideo = (videos \<noteq> []);
                   images = querySelectorAll sel_media_img post;
                   kept = filter (\<lambda>img. src img \<noteq> [] \<and>
                                   (\<not> hasVideo \<or> \<not> isVideoThumbnail near img videoWrappers)) images
               in Some (videos @ map (\<lambda>img. (JStr (src img), creator, ''download'')) kept))))"

text \<open>\<open>groupMediaByType\<close>: the non-empty groups in the order video, image, mixed.\<close>

definition groupMediaByType :: "media_item list \<Rightarrow> media_item list list" where
  "groupMediaByType mediaToDownload =
     (let video = filter (\<lambda>(url, creator, type). str_includes type ''video'') mediaToDownload;
          image = filter (\<lambda>(url, creator, type). \<not> str_includes type ''video'') mediaToDownload
      in if video \<noteq> [] \<and> image \<noteq> [] then [video @ image]
         else filter (\<lambda>group. group \<noteq> []) [video, image, []])"

text \<open>
  \<open>createDownloadButtonContainer\<close>: a \<open>div\<close> whose class is the marker, with one button
  for each group. The text, the style and the click handler of a button are not part of
  the element model.
\<close>

definition createDownloadButtonContainer :: "cs_state \<Rightarrow> media_item list \<Rightarrow> element" where
  "createDownloadButtonContainer st mediaToDownload =
     Element ''div'' [uniqueClass st]
       [(''style'', ''margin: 10px 0; display: flex; gap: 5px; flex-wrap: wrap;'')] []
       (map (\<lambda>group. Element ''button'' [] [] [] []) (groupMediaByType mediaToDownload))"

definition appendChild :: "element \<Rightarrow> element \<Rightarrow> element" where
  "appendChild parent child =
     Element (tag parent) (classes parent) (attrs parent) (src parent) (children parent @ [child])"

text \<open>
  \<open>post.querySelector(sel).appendChild(child)\<close> seen from the post: the first descendant
  matching the selector, in document order, gets the child; \<open>None\<close> when there is none.
\<close>

fun appendToFirst :: "(element \<Rightarrow> bool) \<Rightarrow> element \<Rightarrow> element list \<Rightarrow> element list option" where
  "appendToFirst sel child [] = None"
| "appendToFirst sel child (Element t cs ats s ch # rest) =
     (if sel (Element t cs ats s ch) then Some (appendChild (Element t cs ats s ch) child # rest)
      else (case appendToFirst sel child ch of
              Some ch' \<Rightarrow> Some (Element t cs ats s ch' # rest)
            | None \<Rightarrow> map_option (\<lambda>r. Element t cs ats s ch # r) (appendToFirst sel child rest)))"

text \<open>The injected controls a container carries.\<close>

definition controls :: "cs_state \<Rightarrow> element \<Rightarrow> element list" where
  "controls st container = querySelectorAll (has_class (uniqueClass st)) container"

text \<open>
  The callback of \<open>handleFeedPosts\<close> on one post, and \<open>handleNewPost\<close>, each giving the post
  as it is afterwards; \<open>None\<close> when \<open>extractMediaFromPost\<close> throws. The listeners that
  \<open>setupMultiMediaHandlingForPost\<close> adds do not change the document.
\<close>

definition handleFeedPosts_post ::
  "cs_state \<Rightarrow> string \<Rightarrow> (element \<Rightarrow> element \<Rightarrow> bool) \<Rightarrow> element \<Rightarrow> element option" where
  "handleFeedPosts_post st creator near post =
     (if querySelector (has_class (uniqueClass st)) post \<noteq> None then Some post
      else (case extractMediaFromPost st creator near post of
              None \<Rightarrow> None
            | Some mediaToDownload \<Rightarrow>
                if mediaToDownload \<noteq> []
                then (let buttonContainer = createDownloadButtonContainer st mediaToDownload
                      in (case appendToFirst (has_class ''b-post__tools'') buttonContainer
                                 (children post) of
                            Some ch \<Rightarrow>
                              Some (Element (tag post) (classes post) (attrs post) (src post) ch)
                          | None \<Rightarrow> Some post))
                else Some post))"

definition handleNewPost ::
  "cs_state \<Rightarrow> string \<Rightarrow> (element \<Rightarrow> element \<Rightarrow> bool) \<Rightarrow> element \<Rightarrow> element option" where
  "handleNewPost st creator near postElement =
     (case extractMediaFromPost st creator near postElement of
        None \<Rightarrow> None
      | Some mediaToDownload \<Rightarrow>
          if mediaToDownload \<noteq> []
          then Some (appendChild postElement (createDownloadButtonContainer st mediaToDownload))
          else Some postElement)"

text \<open>
  \<open>container.querySelectorAll(sel).forEach(btn => btn.remove())\<close>: the container without
  its descendants that match the selector.
\<close>

fun removeMatching :: "(element \<Rightarrow> bool) \<Rightarrow> element \<Rightarrow> element" where
  "removeMatching sel (Element t cs ats s ch) =
     Element t cs ats s (map (removeMatching sel) (filter (\<lambda>c. \<not> sel c) ch))"

text \<open>
  \<open>handleNewMedia\<close> from the point where \<open>mediaElement.closest('.b-post')\<close> has given the
  post: the controls of the post are removed and one is appended, when the post has media.
\<close>

definition handleNewMedia ::
  "cs_state \<Rightarrow> string \<Rightarrow> (element \<Rightarrow> element \<Rightarrow> bool) \<Rightarrow> element \<Rightarrow> element option" where
  "handleNewMedia st creator near post =
     (case extractMediaFromPost st creator near post of
        None \<Rightarrow> None
      | Some mediaToDownload \<Rightarrow>
          if mediaToDownload \<noteq> []
          then Some (appendChild (removeMatching (has_class (uniqueClass st)) post)
                       (createDownloadButtonContainer st mediaToDownload))
          else Some post)"

text \<open>\<open>.b-post__media__img\<close> or \<open>.b-post__media__video\<close>, the test of the main observer.\<close>

definition sel_new_media :: "element \<Rightarrow> bool" where
  "sel_new_media e \<longleftrightarrow> has_class ''b-post__media__img'' e \<or> has_class ''b-post__media__video'' e"

text \<open>
  The callback of the main observer (\<open>setupMutationObserver\<close>) on an added element that has
  the class \<open>b-post\<close>: \<open>handleNewPost\<close> on it, then \<open>handleNewMedia\<close> on it when it contains
  an element with one of the two media classes; \<open>closest('.b-post')\<close> is then the element
  itself. An exception of \<open>handleNewPost\<close> leaves the callback (\<open>None\<close>).
\<close>

definition mainObserver_addedPost ::
  "cs_state \<Rightarrow> string \<Rightarrow> (element \<Rightarrow> element \<Rightarrow> bool) \<Rightarrow> element \<Rightarrow> element option" where
  "mainObserver_addedPost st creator near node =
     (case handleNewPost st creator near node of
        None \<Rightarrow> None
      | Some node' \<Rightarrow>
          if querySelector sel_new_media node' \<noteq> None
          then handleNewMedia st creator near node'
          else Some node')"

text \<open>
  \<open>createVideoDownloadButton(container, videoUrl)\<close>, and the callback of
  \<open>processVideoWrappers\<close> on one wrapper, \<open>post\<close> being \<open>wrapper.closest('.b-post')\<close>. When no
  URL is found the wrapper is left as it is (a timer retries later).
\<close>

definition createVideoDownloadButton :: "cs_state \<Rightarrow> string \<Rightarrow> element \<Rightarrow> jsv \<Rightarrow> element" where
  "createVideoDownloadButton st creator container videoUrl =
     appendChild (removeMatching (has_class (uniqueClass st)) container)
       (createDownloadButtonContainer st [(videoUrl, creator, ''download video'')])"

definition processVideoWrappers_wrapper ::
  "cs_state \<Rightarrow> string \<Rightarrow> element \<Rightarrow> element option \<Rightarrow> element option" where
  "processVideoWrappers_wrapper st creator wrapper post =
     (case extractVideoUrl st wrapper post of
        Raised \<Rightarrow> None
      | NotFound \<Rightarrow> Some wrapper
      | Found videoUrl \<Rightarrow>
          if truthy videoUrl then Some (createVideoDownloadButton st creator wrapper videoUrl)
          else Some wrapper)"

text \<open>
  A change of one element seen from an element that contains it: the element is given by
  the indices of the children on the way down to it.
\<close>

fun updateAt :: "nat list \<Rightarrow> (element \<Rightarrow> element option) \<Rightarrow> element \<Rightarrow> element option" where
  "updateAt [] f e = f e"
| "updateAt (i # path) f e =
     (if i < length (children e)
      then map_option
             (\<lambda>c. Element (tag e) (classes e) (attrs e) (src e) ((children e)[i := c]))
             (updateAt path f (children e ! i))
      else None)"

text \<open>
  \<open>injectDownloadButtons\<close> as it acts on a post whose only player is the video wrapper that
  is its first child: the callback of \<open>handleFeedPosts\<close> on the post, then the callback of
  \<open>processVideoWrappers\<close> on the wrapper. The other selectors of \<open>handleVideoPlayers\<close>
  (\<open>[class*="videoPlayer-"][class*="-dimensions"]\<close>, \<open>.video-js, .vjs-fluid\<close>, videos outside
  a wrapper, videos with a data attribute) and \<open>.b-chat__message\<close> match nothing in such a
  post.
\<close>

definition injectDownloadButtons_wrapperPost ::
  "cs_state \<Rightarrow> string \<Rightarrow> (element \<Rightarrow> element \<Rightarrow> bool) \<Rightarrow> element \<Rightarrow> element option" where
  "injectDownloadButtons_wrapperPost st creator near post =
     (case handleFeedPosts_post st creator near post of
        None \<Rightarrow> None
      | Some post' \<Rightarrow>
          updateAt [0] (\<lambda>wrapper. processVideoWrappers_wrapper st creator wrapper (Some post'))
            post')"

section \<open>The order of the strategies\<close>






definition nested_scan :: "element \<Rightarrow> string" where
  "nested_scan wrapper = str_of (scanVideos (querySelectorAll (has_tag ''video'') wrapper))"

definition nested_data :: "element \<Rightarrow> string" where
  "nested_data wrapper = str_of (scanData (querySelectorAll sel_data wrapper))"

definition found_url :: "string \<Rightarrow> jsv lookup" where
  "found_url s = (if s = [] then NotFound else Found (JStr s))"






text \<open>The key of a quality tier in the quality map.\<close>

fun tier_key :: "quality_tier \<Rightarrow> string" where
  "tier_key QPreview = ''preview''"
| "tier_key Q240 = ''240''"
| "tier_key Q720 = ''720''"
| "tier_key QFull = ''full''"

section \<open>Scenarios\<close>

text \<open>
  The payload of the specification's end-to-end scenario, recorded from a feed endpoint
  with the preferred quality 720; a post and a player shell of the page; and documents
  used as examples below.
\<close>

definition scenario_video :: jsv where
  "scenario_video =
     JObj [(''type'', JStr ''video''), (''preview'', JStr ''https://x/p.jpg?z=1''),
           (''source'', JObj [(''source'', JStr ''https://x/full.mp4'')]),
           (''videoSources'', JObj [(''720'', JStr ''https://x/720.mp4'')])]"

definition scenario_payload :: jsv where
  "scenario_payload = JObj [(''id'', JStr ''42''), (''media'', JArr [scenario_video])]"

definition scenario_state :: cs_state where
  "scenario_state =
     delivered ''https://onlyfans.com/api2/v2/posts/42'' [] scenario_payload
       (fresh \<lparr>quality = Q720, autoCreateFolder = True\<rparr> ''of-downloader-k3x9q2a'')"

definition shell :: element where
  "shell = Element ''div'' [''video-wrapper''] [] [] [Element ''video'' [''vjs-tech''] [] [] []]"

definition post_with_id :: "string \<Rightarrow> element" where
  "post_with_id ident = Element ''div'' [''b-post''] [(''data-id'', ident)] [] [shell]"




definition enveloped_object :: jsv where
  "enveloped_object = JObj [(''list'', JObj [(''id'', JStr ''7''), (''media'', JArr [])])]"

definition image_post :: element where
  "image_post =
     Element ''div'' [''b-post''] [(''data-id'', ''77'')] []
       [Element ''div'' [''b-post__media''] [] []
          [Element ''img'' [''b-post__media__img''] [] ''https://cdn.example/i/1.jpg'' []],
        Element ''div'' [''b-post__tools''] [] [] []]"







definition video_player :: element where
  "video_player =
     Element ''div'' [''video-wrapper''] [] []
       [Element ''video'' [''vjs-tech''] [] ''https://cdn.example/v/1.mp4'' []]"

definition video_post :: element where
  "video_post =
     Element ''div'' [''b-post''] [(''data-id'', ''88'')] []
       [video_player, Element ''div'' [''b-post__tools''] [] [] []]"

definition no_layout :: "element \<Rightarrow> element \<Rightarrow> bool" where
  "no_layout wrapper img = False"

section \<open>Properties of file name synthesis\<close>

lemma split_not_Nil: "split sep s \<noteq> []"
  by (induction s) (auto split: list.splits)

lemma hd_split: "hd (split sep s) = takeWhile (\<lambda>c. c \<noteq> sep) s"
  using split_not_Nil by (induction s) (auto split: list.splits)

lemma split_no_sep: "sep \<notin> set s \<Longrightarrow> split sep s = [s]"
  by (induction s) (auto split: list.splits)

lemma split_two: "sep \<in> set s \<Longrightarrow> tl (split sep s) \<noteq> []"
  using split_not_Nil by (induction s) (auto split: list.splits)

lemma last_split_skip: "last (split sep (a @ sep # b)) = last (split sep b)"
proof (induction a)
  case Nil
  show ?case by (simp add: split_not_Nil)
next
  case (Cons c a)
  show ?case
  proof (cases "c = sep")
    case True
    with Cons show ?thesis by (simp add: split_not_Nil)
  next
    case False
    have "tl (split sep (a @ sep # b)) \<noteq> []" by (rule split_two) simp
    then obtain w v ws where "split sep (a @ sep # b) = w # v # ws"
      by (cases "split sep (a @ sep # b)") (auto simp: neq_Nil_conv)
    with Cons False show ?thesis by simp
  qed
qed

lemma last_split: "last (split sep s) = rev (takeWhile (\<lambda>c. c \<noteq> sep) (rev s))"
proof (cases "sep \<in> set s")
  case False
  then have tw: "takeWhile (\<lambda>c. c \<noteq> sep) (rev s) = rev s"
    by (intro takeWhile_eq_all_conv[THEN iffD2]) auto
  show ?thesis unfolding tw using False by (simp add: split_no_sep)
next
  case True
  then obtain a b where s: "s = a @ sep # b" and b: "sep \<notin> set b"
    by (auto dest: split_list_last)
  have "takeWhile (\<lambda>c. c \<noteq> sep) (rev b @ sep # rev a) = rev b"
    using b by (subst takeWhile_append2) auto
  with s b show ?thesis by (simp add: last_split_skip split_no_sep)
qed

lemma show_nat_example: "show_nat 1730000000123 = ''1730000000123''"
  by (simp add: show_nat.simps digit_char_def)

text \<open>
  Claim C2. For a URL string and a creator string, the synthesized name is the segment after
  the last slash of the URL's part before the query string, prefixed with the sanitized
  creator and a slash when folder organization is on; sanitizing keeps the length and
  replaces exactly the characters outside \<open>[A-Za-z0-9]\<close> with an underscore
  (\<open>Jane Doe#1\<close> gives \<open>Jane_Doe_1\<close>); the body throws exactly when the URL or the
  creator is not a string, and then the timestamp placeholder is returned, so the function
  has a result on every input.
\<close>

theorem generateFilename_synthesis:
  "generateFilename now (JStr u) (JStr c) ty st =
     (if autoCreateFolder st
      then replace_non_alnum c @ ''/'' @ last_segment (before_query u)
      else last_segment (before_query u))
   \<and> length (replace_non_alnum c) = length c
   \<and> (\<forall>i<length c. replace_non_alnum c ! i = (if alnum (c ! i) then c ! i else CHR ''_''))
   \<and> replace_non_alnum ''Jane Doe#1'' = ''Jane_Doe_1''
   \<and> (generateFilename_body url creator ty st = None \<longleftrightarrow> \<not> (isString url \<and> isString creator))
   \<and> (generateFilename_body url creator ty st = None \<longrightarrow>
        generateFilename now url creator ty st = ''download_'' @ show_nat now @ ''.file'')"
proof (intro conjI)
  show "generateFilename now (JStr u) (JStr c) ty st =
     (if autoCreateFolder st
      then replace_non_alnum c @ ''/'' @ last_segment (before_query u)
      else last_segment (before_query u))"
    by (simp add: generateFilename_def generateFilename_body_def Let_def hd_split last_split
        last_segment_def before_query_def)
  show "length (replace_non_alnum c) = length c"
    by (simp add: replace_non_alnum_def)
  show "\<forall>i<length c. replace_non_alnum c ! i = (if alnum (c ! i) then c ! i else CHR ''_'')"
    by (simp add: replace_non_alnum_def)
  show "replace_non_alnum ''Jane Doe#1'' = ''Jane_Doe_1''"
    by (simp add: replace_non_alnum_def alnum_def)
  show "generateFilename_body url creator ty st = None \<longleftrightarrow> \<not> (isString url \<and> isString creator)"
    by (cases url; cases creator) (simp_all add: generateFilename_body_def Let_def)
  show "generateFilename_body url creator ty st = None \<longrightarrow>
        generateFilename now url creator ty st = ''download_'' @ show_nat now @ ''.file''"
    by (simp add: generateFilename_def)
qed

theorem generateFilename_synthesis_witness:
  "generateFilename 1730000000123 (JStr ''https://cdn.example/files/a/photo.jpg?token=abc'')
      (JStr ''Jane Doe#1'') (JStr ''download'') \<lparr>quality = QFull, autoCreateFolder = True\<rparr> = ''Jane_Doe_1/photo.jpg''
   \<and> generateFilename 1730000000123 (JStr ''https://cdn.example/files/a/photo.jpg?token=abc'')
      (JStr ''Jane Doe#1'') (JStr ''download'') \<lparr>quality = QFull, autoCreateFolder = False\<rparr> = ''photo.jpg''
   \<and> generateFilename_body (JNum 5) (JStr ''Bob'') (JStr ''download'') \<lparr>quality = QFull, autoCreateFolder = True\<rparr> = None
   \<and> generateFilename 1730000000123 (JNum 5) (JStr ''Bob'') (JStr ''download'')
        \<lparr>quality = QFull, autoCreateFolder = True\<rparr> = ''download_1730000000123.file''"
  using generateFilename_synthesis [of 1730000000123 "''https://cdn.example/files/a/photo.jpg?token=abc''"
      "''Jane Doe#1''" "JStr ''download''" "\<lparr>quality = QFull, autoCreateFolder = True\<rparr>" "JNum 5" "JStr ''Bob''"]
    generateFilename_synthesis [of 1730000000123 "''https://cdn.example/files/a/photo.jpg?token=abc''"
      "''Jane Doe#1''" "JStr ''download''" "\<lparr>quality = QFull, autoCreateFolder = False\<rparr>" "JNum 5" "JStr ''Bob''"]
  by (simp add: last_segment_def before_query_def show_nat_example)

section \<open>Properties of the download queue\<close>

lemma enqueued_append: "enqueued (a @ b) = enqueued a @ enqueued b"
  by (induction a rule: enqueued.induct) simp_all

lemma started_append: "started (a @ b) = started a @ started b"
  by (induction a rule: started.induct) simp_all

lemma start_times_append: "start_times (a @ b) = start_times a @ start_times b"
  by (induction a rule: start_times.induct) simp_all

lemma ended_append: "ended (a @ b) = ended a @ ended b"
  by (induction a rule: ended.induct) simp_all

lemma failed_append: "failed (a @ b) = failed a @ failed b"
  by (induction a rule: failed.induct) simp_all

lemma notifications_append: "notifications (a @ b) = notifications a @ notifications b"
  by (induction a rule: notifications.induct) simp_all

lemma open_after_append: "open_after (a @ b) opn = open_after b (open_after a opn)"
  by (induction a opn rule: open_after.induct) simp_all

lemma sequential_append:
  "sequential (a @ b) opn \<longleftrightarrow> sequential a opn \<and> sequential b (open_after a opn)"
  by (induction a opn rule: sequential.induct) auto

lemma spaced_snoc:
  "spaced gap (ts @ [t]) \<longleftrightarrow>
     spaced gap ts \<and> (\<forall>t' \<in> set (if ts = [] then [] else [last ts]). t' + gap \<le> t)"
  by (induction gap ts rule: spaced.induct) auto

lemma spaced_snoc_all:
  "spaced gap ts \<Longrightarrow> \<forall>t' \<in> set ts. t' + gap \<le> t \<Longrightarrow> spaced gap (ts @ [t])"
  by (simp add: spaced_snoc)

lemmas trace_append = enqueued_append started_append start_times_append ended_append
  open_after_append sequential_append

subsection \<open>The invariant holds in every reachable state\<close>

lemma queue_inv_initial: "queue_inv initial"
  by (simp add: queue_inv_def initial_def trace_ok_def idle_def)

lemma queue_inv_tick: "queue_inv s \<Longrightarrow> queue_inv (step (Tick dt) s)"
proof -
  assume inv: "queue_inv s"
  then have tr: "trace_ok (step (Tick dt) s)" by (simp add: queue_inv_def trace_ok_def step_def)
  from inv consider "idle s" | d where "downloading s d" | dl where "cooling s dl"
    by (auto simp: queue_inv_def)
  then show ?thesis
  proof cases
    case 1
    then have "idle (step (Tick dt) s)" by (auto simp: idle_def step_def)
    with tr show ?thesis by (simp add: queue_inv_def)
  next
    case 2
    then have "downloading (step (Tick dt) s) d" by (auto simp: downloading_def step_def)
    with tr show ?thesis by (auto simp: queue_inv_def)
  next
    case 3
    then have "cooling (step (Tick dt) s) dl" by (auto simp: cooling_def step_def)
    with tr show ?thesis by (auto simp: queue_inv_def)
  qed
qed

lemma loop_test_inv:
  assumes "trace_ok s" "cooling s deadline" "deadline \<le> clock s"
  shows "queue_inv (loop_test 0 s)"
proof (cases "downloadQueue s")
  case Nil
  with assms show ?thesis
    by (auto simp: queue_inv_def loop_test_def trace_ok_def idle_def cooling_def)
next
  case (Cons d q)
  from assms have sp: "\<forall>t' \<in> set (start_times (trace s)). t' + 100 \<le> clock s"
    by (auto simp: cooling_def)
  with assms have "spaced 100 (start_times (trace s) @ [clock s])"
    by (intro spaced_snoc_all) (auto simp: trace_ok_def)
  with assms Cons sp have "trace_ok (loop_test 0 s)"
    by (auto simp: loop_test_def trace_ok_def cooling_def record_event_def trace_append)
  moreover from assms Cons sp have "downloading (loop_test 0 s) d"
    by (auto simp: loop_test_def downloading_def cooling_def record_event_def trace_append)
  ultimately show ?thesis by (auto simp: queue_inv_def)
qed

lemma queue_inv_timer: "queue_inv s \<Longrightarrow> queue_inv (step (TimerFired i) s)"
proof -
  assume inv: "queue_inv s"
  then have tr: "trace_ok s" by (simp add: queue_inv_def)
  from inv consider "idle s" | d where "downloading s d" | dl where "cooling s dl"
    by (auto simp: queue_inv_def)
  then show ?thesis
  proof cases
    case 1 with inv show ?thesis by (simp add: step_def idle_def)
  next
    case 2 with inv show ?thesis by (cases i) (simp_all add: step_def downloading_def)
  next
    case 3
    show ?thesis
    proof (cases "i = 0 \<and> dl \<le> clock s")
      case True
      with 3 tr have "queue_inv (loop_test 0 s)" by (intro loop_test_inv) auto
      with True 3 show ?thesis by (simp add: step_def cooling_def)
    next
      case False
      with 3 inv show ?thesis by (cases i) (auto simp: step_def cooling_def)
    qed
  qed
qed

lemma queue_inv_settled: "queue_inv s \<Longrightarrow> queue_inv (step (Settled i outcome) s)"
proof -
  assume inv: "queue_inv s"
  then have tr: "trace_ok s" by (simp add: queue_inv_def)
  from inv consider "idle s" | d where "downloading s d" | dl where "cooling s dl"
    by (auto simp: queue_inv_def)
  then show ?thesis
  proof cases
    case 1 with inv show ?thesis by (simp add: step_def idle_def)
  next
    case 3 with inv show ?thesis by (cases i) (simp_all add: step_def cooling_def)
  next
    case 2
    show ?thesis
    proof (cases i)
      case (Suc n) with 2 inv show ?thesis by (simp add: step_def downloading_def)
    next
      case 0
      let ?s' = "step (Settled 0 outcome) s"
      from 2 tr have "trace_ok ?s'"
        by (cases outcome)
           (auto simp: step_def downloading_def trace_ok_def executeDownload_settled_def
              showNotification_def record_event_def trace_append Let_def)
      moreover from 2 have "cooling ?s' (clock s + 100)"
        by (cases outcome)
           (auto simp: step_def downloading_def cooling_def executeDownload_settled_def
              showNotification_def record_event_def trace_append Let_def)
      ultimately show ?thesis using 0 by (auto simp: queue_inv_def)
    qed
  qed
qed

lemma queue_inv_handle:
  assumes inv: "queue_inv s"
  shows "queue_inv (handleDownloadRequest xs st s)"
proof (cases "truthy (elem xs 0)")
  case False
  with inv show ?thesis by (simp add: handleDownloadRequest_def Let_def)
next
  case True
  define d where "d = \<lparr>dl_url = elem xs 0,
     dl_filename = generateFilename (clock s) (elem xs 0) (elem xs 1) (elem xs 2) st,
     dl_creator = elem xs 1, dl_type = elem xs 2\<rparr>"
  define s1 where "s1 = record_event (Enqueued d) (s\<lparr>downloadQueue := downloadQueue s @ [d]\<rparr>)"
  have h: "handleDownloadRequest xs st s =
      (if \<not> isProcessingQueue s1 then processDownloadQueue s1 else s1)"
    using True by (simp add: handleDownloadRequest_def Let_def d_def s1_def)
  from inv have tr: "trace_ok s" by (simp add: queue_inv_def)
  from inv consider "idle s" | d' where "downloading s d'" | dl where "cooling s dl"
    by (auto simp: queue_inv_def)
  then show ?thesis
  proof cases
    case 1
    then have sp: "\<forall>t' \<in> set (start_times (trace s)). t' + 100 \<le> clock s"
      by (auto simp: idle_def)
    with tr have spc: "spaced 100 (start_times (trace s) @ [clock s])"
      by (intro spaced_snoc_all) (auto simp: trace_ok_def)
    have eq: "handleDownloadRequest xs st s =
        s\<lparr>downloadQueue := [], isProcessingQueue := True, drainers := [AwaitingDownload d],
          trace := trace s @ [(clock s, Enqueued d), (clock s, Starting d)]\<rparr>"
      using 1 unfolding h
      by (simp add: s1_def record_event_def processDownloadQueue_def loop_test_def idle_def)
    from tr 1 spc have "trace_ok (handleDownloadRequest xs st s)"
      unfolding eq by (auto simp: trace_ok_def idle_def trace_append)
    moreover from 1 sp have "downloading (handleDownloadRequest xs st s) d"
      unfolding eq by (auto simp: downloading_def idle_def trace_append)
    ultimately show ?thesis by (auto simp: queue_inv_def)
  next
    case 2
    then have eq: "handleDownloadRequest xs st s = s1"
      unfolding h by (simp add: s1_def record_event_def downloading_def)
    from tr have "trace_ok s1"
      by (auto simp: s1_def record_event_def trace_ok_def trace_append)
    moreover from 2 have "downloading s1 d'"
      by (auto simp: s1_def record_event_def downloading_def trace_append)
    ultimately show ?thesis unfolding eq by (auto simp: queue_inv_def)
  next
    case 3
    then have eq: "handleDownloadRequest xs st s = s1"
      unfolding h by (simp add: s1_def record_event_def cooling_def)
    from tr have "trace_ok s1"
      by (auto simp: s1_def record_event_def trace_ok_def trace_append)
    moreover from 3 have "cooling s1 dl"
      by (auto simp: s1_def record_event_def cooling_def trace_append)
    ultimately show ?thesis unfolding eq by (auto simp: queue_inv_def)
  qed
qed

lemma queue_inv_step: "queue_inv s \<Longrightarrow> queue_inv (step e s)"
proof (cases e)
  case (Request m st)
  assume "queue_inv s"
  then show ?thesis using Request
    by (cases "snd (messageListener m)") (simp_all add: step_def queue_inv_handle)
qed (simp_all add: queue_inv_tick queue_inv_timer queue_inv_settled)

lemma queue_inv_run: "queue_inv s \<Longrightarrow> queue_inv (run es s)"
  by (induction es arbitrary: s) (simp_all add: queue_inv_step)


subsection \<open>The loop drains the queue\<close>

lemma round_from_download:
  assumes "drainers s = [AwaitingDownload d]"
  shows "drainers (run [Settled 0 outcome, Tick 100, TimerFired 0] s) =
           (case downloadQueue s of [] \<Rightarrow> [] | n # q \<Rightarrow> [AwaitingDownload n])"
    and "downloadQueue (run [Settled 0 outcome, Tick 100, TimerFired 0] s) = tl (downloadQueue s)"
  using assms
  by (cases outcome; cases "downloadQueue s";
      simp add: step_def executeDownload_settled_def showNotification_def record_event_def
        loop_test_def Let_def)+

lemma rounds_idle: "drainers s = [] \<Longrightarrow> drainers (run (rounds os) s) = []"
  by (induction os arbitrary: s) (simp_all add: step_def)

lemma rounds_drain:
  "drainers s = [AwaitingDownload d] \<Longrightarrow> length (downloadQueue s) < length os \<Longrightarrow>
   drainers (run (rounds os) s) = []"
proof (induction os arbitrary: s d)
  case Nil
  then show ?case by simp
next
  case (Cons outcome os)
  let ?s1 = "run [Settled 0 outcome, Tick 100, TimerFired 0] s"
  have r: "run (rounds (outcome # os)) s = run (rounds os) ?s1" by simp
  show ?case
  proof (cases "downloadQueue s")
    case Nil
    with round_from_download(1)[OF Cons.prems(1), of outcome]
    have "drainers ?s1 = []" by simp
    then show ?thesis unfolding r by (rule rounds_idle)
  next
    case (Cons n q)
    with round_from_download[OF Cons.prems(1), of outcome] Cons.prems(2)
    have "drainers ?s1 = [AwaitingDownload n]"
      and "length (downloadQueue ?s1) < length os"
      by simp_all
    then show ?thesis unfolding r by (rule Cons.IH)
  qed
qed

lemma drain_schedule_drains:
  assumes inv: "queue_inv s" and len: "length (downloadQueue s) < length os"
  shows "drainers (run (drain_schedule os) s) = []"
proof -
  let ?s1 = "run [Tick 100, TimerFired 0] s"
  have r: "run (drain_schedule os) s = run (rounds os) ?s1" by (simp add: drain_schedule_def)
  from inv consider "idle s" | d where "downloading s d" | dl where "cooling s dl"
    by (auto simp: queue_inv_def)
  then show ?thesis
  proof cases
    case 1
    then have "drainers ?s1 = []" by (simp add: idle_def step_def)
    then show ?thesis unfolding r by (rule rounds_idle)
  next
    case 2
    then have "drainers ?s1 = [AwaitingDownload d]" "downloadQueue ?s1 = downloadQueue s"
      by (simp_all add: downloading_def step_def)
    with len show ?thesis unfolding r by (intro rounds_drain) auto
  next
    case 3
    show ?thesis
    proof (cases "downloadQueue s")
      case Nil
      with 3 have "drainers ?s1 = []" by (simp add: cooling_def step_def loop_test_def)
      then show ?thesis unfolding r by (rule rounds_idle)
    next
      case (Cons n q)
      with 3 have "drainers ?s1 = [AwaitingDownload n]" "downloadQueue ?s1 = q"
        by (simp_all add: cooling_def step_def loop_test_def record_event_def)
      with len Cons show ?thesis unfolding r by (intro rounds_drain) auto
    qed
  qed
qed

lemma enqueued_loop_test: "enqueued (trace (loop_test i s)) = enqueued (trace s)"
  by (cases "downloadQueue s") (simp_all add: loop_test_def record_event_def enqueued_append)

lemma enqueued_step:
  "(\<forall>m st. e \<noteq> Request m st) \<Longrightarrow> enqueued (trace (step e s)) = enqueued (trace s)"
  by (cases e)
     (auto simp: step_def enqueued_loop_test executeDownload_settled_def showNotification_def
        record_event_def enqueued_append Let_def split: drainer.splits download_outcome.splits)

lemma enqueued_rounds: "enqueued (trace (run (rounds os) s)) = enqueued (trace s)"
  by (induction os arbitrary: s) (simp_all add: enqueued_step)

lemma enqueued_drain_schedule:
  "enqueued (trace (run (drain_schedule os) s)) = enqueued (trace s)"
  by (simp add: drain_schedule_def enqueued_rounds enqueued_step)

lemma idle_complete:
  assumes "queue_inv s" "drainers s = []"
  shows "downloadQueue s = [] \<and> \<not> isProcessingQueue s \<and> started (trace s) = enqueued (trace s)
     \<and> ended (trace s) = enqueued (trace s)"
proof -
  from assms have "idle s" by (auto simp: queue_inv_def downloading_def cooling_def)
  with assms show ?thesis by (auto simp: queue_inv_def trace_ok_def idle_def)
qed

lemma drained:
  assumes len: "length (downloadQueue (run evs initial)) < length outcomes"
  shows "drainers (run (drain_schedule outcomes) (run evs initial)) = []
     \<and> downloadQueue (run (drain_schedule outcomes) (run evs initial)) = []
     \<and> \<not> isProcessingQueue (run (drain_schedule outcomes) (run evs initial))
     \<and> started (trace (run (drain_schedule outcomes) (run evs initial)))
         = enqueued (trace (run evs initial))
     \<and> ended (trace (run (drain_schedule outcomes) (run evs initial)))
         = enqueued (trace (run evs initial))"
proof -
  define s where "s = run evs initial"
  define s' where "s' = run (drain_schedule outcomes) s"
  have inv: "queue_inv s" unfolding s_def by (intro queue_inv_run queue_inv_initial)
  then have inv': "queue_inv s'" unfolding s'_def by (rule queue_inv_run)
  have d: "drainers s' = []"
    unfolding s'_def using inv len[folded s_def] by (rule drain_schedule_drains)
  have "enqueued (trace s') = enqueued (trace s)"
    unfolding s'_def by (rule enqueued_drain_schedule)
  with idle_complete[OF inv' d] d show ?thesis unfolding s'_def s_def by simp
qed

lemma scenario_values:
  "length (downloadQueue (run scenario_requests initial)) = 2
   \<and> map dl_filename (started (trace (run (drain_schedule scenario_outcomes)
         (run scenario_requests initial)))) = [''Bob/one.jpg'', ''Bob/two.jpg'', ''Bob/three.mp4'']
   \<and> start_times (trace (run (drain_schedule scenario_outcomes)
         (run scenario_requests initial))) = [0, 200, 300]
   \<and> notifications (trace (run (drain_schedule scenario_outcomes)
         (run scenario_requests initial))) = [(''Download Failed'', ''Failed to download Bob/two.jpg'')]"
  by code_simp



subsection \<open>Failures are notified and do not stop the loop\<close>

lemma notified_loop_test:
  "notifications (trace (loop_test i s)) = notifications (trace s)"
  "failed (trace (loop_test i s)) = failed (trace s)"
  by (cases "downloadQueue s"; simp add: loop_test_def record_event_def
      notifications_append failed_append)+

lemma notified_handle:
  "notifications (trace (handleDownloadRequest xs st s)) = notifications (trace s)"
  "failed (trace (handleDownloadRequest xs st s)) = failed (trace s)"
  by (simp_all add: handleDownloadRequest_def processDownloadQueue_def notified_loop_test
      record_event_def notifications_append failed_append Let_def)

lemma notified_step:
  assumes "notifications (trace s) = map failure_notice (failed (trace s))"
  shows "notifications (trace (step e s)) = map failure_notice (failed (trace (step e s)))"
proof (cases e)
  case (Request m st)
  with assms show ?thesis
    by (cases "snd (messageListener m)") (simp_all add: step_def notified_handle)
next
  case (Settled i outcome)
  with assms show ?thesis
    by (cases outcome)
       (auto simp: step_def executeDownload_settled_def showNotification_def record_event_def
          notifications_append failed_append failure_notice_def Let_def split: drainer.splits)
next
  case (TimerFired i)
  with assms show ?thesis
    by (auto simp: step_def notified_loop_test split: drainer.splits)
next
  case (Tick dt)
  with assms show ?thesis by (simp add: step_def)
qed

lemma notified_run:
  "notifications (trace s) = map failure_notice (failed (trace s)) \<Longrightarrow>
   notifications (trace (run es s)) = map failure_notice (failed (trace (run es s)))"
  by (induction es arbitrary: s) (simp_all add: notified_step)

lemma scenario_failure_step:
  "drainers (run (scenario_requests @ [Tick 5]) initial) ! 0 =
     AwaitingDownload \<lparr>dl_url = JStr ''https://cdn.example/a/one.jpg?t=1'',
       dl_filename = ''Bob/one.jpg'', dl_creator = JStr ''Bob'', dl_type = JStr ''download''\<rparr>
   \<and> 0 < length (drainers (run (scenario_requests @ [Tick 5]) initial))
   \<and> failing Rejected
   \<and> clock (run (scenario_requests @ [Tick 5]) initial) = 5"
  by code_simp

text \<open>
  Claim C6. When the host download awaited by the drain loop fails (the promise rejects, or
  resolves with a falsy id), the failure is logged, a notification titled
  \<open>Download Failed\<close> naming the file is requested, and the loop goes to its timer as after a
  success. In every reachable state the notifications are the notices of the failed items,
  and whatever the outcomes of the remaining downloads, every enqueued item is started.
\<close>

theorem failed_download_notified_queue_continues:
  "(i < length (drainers s) \<and> drainers s ! i = AwaitingDownload d \<and> failing outcome \<longrightarrow>
      step (Settled i outcome) s =
        s\<lparr>drainers := (drainers s)[i := AwaitingTimer (clock s + 100)],
          trace := trace s @ [(clock s, Failed d),
                              (clock s, Notification ''Download Failed''
                                          (''Failed to download '' @ dl_filename d))]\<rparr>)
   \<and> (let r = run evs initial; r' = run (drain_schedule outcomes) r
      in notifications (trace r) = map failure_notice (failed (trace r))
       \<and> (length (downloadQueue r) < length outcomes \<longrightarrow>
            drainers r' = [] \<and> downloadQueue r' = []
          \<and> started (trace r') = enqueued (trace r)
          \<and> ended (trace r') = enqueued (trace r)
          \<and> notifications (trace r') = map failure_notice (failed (trace r'))))"
proof (intro conjI impI)
  assume a: "i < length (drainers s) \<and> drainers s ! i = AwaitingDownload d \<and> failing outcome"
  then show "step (Settled i outcome) s =
        s\<lparr>drainers := (drainers s)[i := AwaitingTimer (clock s + 100)],
          trace := trace s @ [(clock s, Failed d),
                              (clock s, Notification ''Download Failed''
                                          (''Failed to download '' @ dl_filename d))]\<rparr>"
    by (cases outcome)
       (simp_all add: step_def executeDownload_settled_def showNotification_def
          record_event_def Let_def)
next
  define r where "r = run evs initial"
  define r' where "r' = run (drain_schedule outcomes) r"
  have n0: "notifications (trace initial) = map failure_notice (failed (trace initial))"
    by (simp add: initial_def)
  have n: "notifications (trace r) = map failure_notice (failed (trace r))"
    unfolding r_def using n0 by (rule notified_run)
  then have n': "notifications (trace r') = map failure_notice (failed (trace r'))"
    unfolding r'_def by (rule notified_run)
  have c: "drainers r' = [] \<and> downloadQueue r' = []
        \<and> started (trace r') = enqueued (trace r) \<and> ended (trace r') = enqueued (trace r)"
    if len: "length (downloadQueue r) < length outcomes"
    using drained[OF len[unfolded r_def]] unfolding r'_def r_def by simp
  from n n' c show "let r = run evs initial; r' = run (drain_schedule outcomes) r
      in notifications (trace r) = map failure_notice (failed (trace r))
       \<and> (length (downloadQueue r) < length outcomes \<longrightarrow>
            drainers r' = [] \<and> downloadQueue r' = []
          \<and> started (trace r') = enqueued (trace r)
          \<and> ended (trace r') = enqueued (trace r)
          \<and> notifications (trace r') = map failure_notice (failed (trace r')))"
    unfolding r_def[symmetric] r'_def[symmetric] Let_def
    unfolding r'_def[symmetric] by blast
qed

theorem failed_download_notified_queue_continues_witness:
  "trace (step (Settled 0 Rejected) (run (scenario_requests @ [Tick 5]) initial)) =
     trace (run (scenario_requests @ [Tick 5]) initial) @
       [(5, Failed \<lparr>dl_url = JStr ''https://cdn.example/a/one.jpg?t=1'',
              dl_filename = ''Bob/one.jpg'', dl_creator = JStr ''Bob'', dl_type = JStr ''download''\<rparr>),
        (5, Notification ''Download Failed'' ''Failed to download Bob/one.jpg'')]
   \<and> (let r = run scenario_requests initial; r' = run (drain_schedule scenario_outcomes) r
      in length (downloadQueue r) < length scenario_outcomes
       \<and> started (trace r') = enqueued (trace r)
       \<and> map dl_filename (started (trace r')) = [''Bob/one.jpg'', ''Bob/two.jpg'', ''Bob/three.mp4'']
       \<and> notifications (trace r') = [(''Download Failed'', ''Failed to download Bob/two.jpg'')])"
proof -
  have len: "length (downloadQueue (run scenario_requests initial)) < length scenario_outcomes"
    using scenario_values by (simp add: scenario_outcomes_def)
  note t = failed_download_notified_queue_continues
    [of 0 "run (scenario_requests @ [Tick 5]) initial"
        "\<lparr>dl_url = JStr ''https://cdn.example/a/one.jpg?t=1'',
          dl_filename = ''Bob/one.jpg'', dl_creator = JStr ''Bob'', dl_type = JStr ''download''\<rparr>"
        Rejected scenario_requests scenario_outcomes]
  from t scenario_failure_step
  have "step (Settled 0 Rejected) (run (scenario_requests @ [Tick 5]) initial) =
     (run (scenario_requests @ [Tick 5]) initial)
      \<lparr>drainers := (drainers (run (scenario_requests @ [Tick 5]) initial))
                     [0 := AwaitingTimer (clock (run (scenario_requests @ [Tick 5]) initial) + 100)],
       trace := trace (run (scenario_requests @ [Tick 5]) initial) @
         [(clock (run (scenario_requests @ [Tick 5]) initial),
           Failed \<lparr>dl_url = JStr ''https://cdn.example/a/one.jpg?t=1'',
              dl_filename = ''Bob/one.jpg'', dl_creator = JStr ''Bob'', dl_type = JStr ''download''\<rparr>),
          (clock (run (scenario_requests @ [Tick 5]) initial),
           Notification ''Download Failed'' (''Failed to download '' @ ''Bob/one.jpg''))]\<rparr>"
    by simp
  then have a: "trace (step (Settled 0 Rejected) (run (scenario_requests @ [Tick 5]) initial)) =
     trace (run (scenario_requests @ [Tick 5]) initial) @
       [(5, Failed \<lparr>dl_url = JStr ''https://cdn.example/a/one.jpg?t=1'',
              dl_filename = ''Bob/one.jpg'', dl_creator = JStr ''Bob'', dl_type = JStr ''download''\<rparr>),
        (5, Notification ''Download Failed'' ''Failed to download Bob/one.jpg'')]"
    using scenario_failure_step by simp
  from t len scenario_values
  have b: "let r = run scenario_requests initial; r' = run (drain_schedule scenario_outcomes) r
      in length (downloadQueue r) < length scenario_outcomes
       \<and> started (trace r') = enqueued (trace r)
       \<and> map dl_filename (started (trace r')) = [''Bob/one.jpg'', ''Bob/two.jpg'', ''Bob/three.mp4'']
       \<and> notifications (trace r') = [(''Download Failed'', ''Failed to download Bob/two.jpg'')]"
    unfolding Let_def by blast
  from a b show ?thesis by blast
qed

section \<open>Properties of the interception\<close>

lemma includes_suffix: "str_includes (a @ p) p"
proof (induction a)
  case Nil
  show ?case by (cases p) (simp_all add: starts_with_def)
next
  case (Cons c a)
  then show ?case by simp
qed

lemma handleApiRequest_Some:
  "handleApiRequest d = Some f \<Longrightarrow> fetch_url f = req_url d @ ''#trilobite''"
  by (auto simp: handleApiRequest_def fetchApiData_request_def Let_def split: if_splits)

lemma handleApiRequest_skips:
  "req_tabId d < 0 \<or> str_includes (req_url d) ''#trilobite'' \<Longrightarrow> handleApiRequest d = None"
  by (auto simp: handleApiRequest_def)

lemma refetch_skipped:
  assumes "handleApiRequest d = Some f"
  shows "handleApiRequest (observed tab hs f) = None"
proof -
  have "str_includes (req_url (observed tab hs f)) ''#trilobite''"
    using handleApiRequest_Some[OF assms] by (simp add: observed_def includes_suffix)
  then show ?thesis by (simp add: handleApiRequest_skips)
qed

lemma refetches_set: "f \<in> set (refetches ds) \<Longrightarrow> \<exists>d. handleApiRequest d = Some f"
  by (induction ds) (auto split: option.splits)

lemma refetches_none: "(\<forall>d \<in> set ds. handleApiRequest d = None) \<Longrightarrow> refetches ds = []"
  by (induction ds) auto

text \<open>
  Claim C7. Every fetch issued by the interception has the private fragment appended to the
  observed URL; a request whose URL contains the fragment, or whose tab id is negative, is
  skipped without a fetch; so the request a re-issued fetch causes is skipped whatever tab
  and headers the host reports for it, and for any sequence of observed requests the
  re-issued fetches cause no further fetch.
\<close>

theorem refetch_never_refetched:
  "(handleApiRequest d = Some f \<longrightarrow>
      fetch_url f = req_url d @ ''#trilobite'' \<and> str_includes (fetch_url f) ''#trilobite''
      \<and> handleApiRequest (observed tab hs f) = None)
   \<and> (req_tabId d < 0 \<or> str_includes (req_url d) ''#trilobite'' \<longrightarrow> handleApiRequest d = None)
   \<and> refetches (map (\<lambda>f. observed (tab_of f) (headers_of f) f) (refetches ds)) = []"
proof (intro conjI impI)
  assume a: "handleApiRequest d = Some f"
  then show "fetch_url f = req_url d @ ''#trilobite''" by (rule handleApiRequest_Some)
  then show "str_includes (fetch_url f) ''#trilobite''" by (simp add: includes_suffix)
  from a show "handleApiRequest (observed tab hs f) = None" by (rule refetch_skipped)
next
  assume "req_tabId d < 0 \<or> str_includes (req_url d) ''#trilobite''"
  then show "handleApiRequest d = None" by (rule handleApiRequest_skips)
next
  show "refetches (map (\<lambda>f. observed (tab_of f) (headers_of f) f) (refetches ds)) = []"
  proof (rule refetches_none, rule ballI)
    fix d' assume "d' \<in> set (map (\<lambda>f. observed (tab_of f) (headers_of f) f) (refetches ds))"
    then obtain f' where f': "f' \<in> set (refetches ds)"
      and d': "d' = observed (tab_of f') (headers_of f') f'" by auto
    from refetches_set[OF f'] obtain d0 where "handleApiRequest d0 = Some f'" ..
    then show "handleApiRequest d' = None" unfolding d' by (rule refetch_skipped)
  qed
qed

lemma interception_example:
  "handleApiRequest \<lparr>req_tabId = 3, req_url = ''https://onlyfans.com/api2/v2/posts/123'',
       req_headers = [(''Accept'', ''application/json''), (''User-Agent'', ''UA'')]\<rparr>
     = Some \<lparr>fetch_url = ''https://onlyfans.com/api2/v2/posts/123#trilobite'',
             fetch_headers = [(''Accept'', ''application/json'')], fetch_tab = 3\<rparr>
   \<and> (req_tabId \<lparr>req_tabId = - 1, req_url = ''https://onlyfans.com/api2/v2/posts/123'',
       req_headers = []\<rparr> < 0)"
  by code_simp

theorem refetch_never_refetched_witness:
  "handleApiRequest \<lparr>req_tabId = 3, req_url = ''https://onlyfans.com/api2/v2/posts/123'',
       req_headers = [(''Accept'', ''application/json''), (''User-Agent'', ''UA'')]\<rparr>
     = Some \<lparr>fetch_url = ''https://onlyfans.com/api2/v2/posts/123#trilobite'',
             fetch_headers = [(''Accept'', ''application/json'')], fetch_tab = 3\<rparr>
   \<and> handleApiRequest (observed 3 [(''Accept'', ''application/json'')]
        \<lparr>fetch_url = ''https://onlyfans.com/api2/v2/posts/123#trilobite'',
         fetch_headers = [(''Accept'', ''application/json'')], fetch_tab = 3\<rparr>) = None
   \<and> handleApiRequest \<lparr>req_tabId = - 1, req_url = ''https://onlyfans.com/api2/v2/posts/123'',
       req_headers = []\<rparr> = None"
  using refetch_never_refetched
      [of "\<lparr>req_tabId = 3, req_url = ''https://onlyfans.com/api2/v2/posts/123'',
             req_headers = [(''Accept'', ''application/json''), (''User-Agent'', ''UA'')]\<rparr>"
          "\<lparr>fetch_url = ''https://onlyfans.com/api2/v2/posts/123#trilobite'',
             fetch_headers = [(''Accept'', ''application/json'')], fetch_tab = 3\<rparr>"
          3 "[(''Accept'', ''application/json'')]"]
    refetch_never_refetched
      [of "\<lparr>req_tabId = - 1, req_url = ''https://onlyfans.com/api2/v2/posts/123'',
             req_headers = []\<rparr>"]
    interception_example
  by simp

section \<open>Properties of the message listener\<close>

text \<open>
  Claim C4, at the input where the code departs from it: a message of three elements whose
  URL is missing (\<open>null\<close>, or the empty string) is acknowledged with \<open>success: true\<close>, and
  nothing is enqueued or downloaded. The two lemmas after it are the parts of the claim the
  code keeps: a message of bad shape is acknowledged with a failure and changes nothing, a
  well-formed message is acknowledged with a success and enqueued.
\<close>

theorem missing_url_acknowledged_as_success:
  "messageListener (JArr [JNull, JStr ''Bob'', JStr ''download''])
     = (\<lparr>success = True, error = None\<rparr>, Some [JNull, JStr ''Bob'', JStr ''download''])
   \<and> step (Request (JArr [JNull, JStr ''Bob'', JStr ''download'']) st) s = s
   \<and> messageListener (JArr [JStr '''', JStr ''Bob'', JStr ''download''])
     = (\<lparr>success = True, error = None\<rparr>, Some [JStr '''', JStr ''Bob'', JStr ''download''])
   \<and> step (Request (JArr [JStr '''', JStr ''Bob'', JStr ''download'']) st) s = s"
  by (simp add: messageListener_def step_def handleDownloadRequest_def elem_def)

lemma bad_shape_rejected:
  "\<not> (\<exists>xs. message = JArr xs \<and> 3 \<le> length xs) \<Longrightarrow>
   messageListener message = (\<lparr>success = False, error = Some ''Invalid message format''\<rparr>, None)
   \<and> step (Request message st) s = s"
  by (cases message) (auto simp: messageListener_def step_def)

lemma well_formed_enqueued:
  "3 \<le> length xs \<Longrightarrow> truthy (elem xs 0) \<Longrightarrow>
   fst (messageListener (JArr xs)) = \<lparr>success = True, error = None\<rparr>
   \<and> enqueued (trace (step (Request (JArr xs) st) s)) = enqueued (trace s) @
       [\<lparr>dl_url = elem xs 0,
         dl_filename = generateFilename (clock s) (elem xs 0) (elem xs 1) (elem xs 2) st,
         dl_creator = elem xs 1, dl_type = elem xs 2\<rparr>]"
  by (simp add: messageListener_def step_def handleDownloadRequest_def Let_def
      processDownloadQueue_def enqueued_loop_test record_event_def enqueued_append)

section \<open>Properties of the payload normalization\<close>

lemma processApiResponse_null: "nullish data \<Longrightarrow> processApiResponse data = JNull"
  by (cases data) (simp_all add: processApiResponse_def processApiResponse_body_def get_prop_def)

lemma sendToContentScript_null:
  "processApiResponse data = JNull \<Longrightarrow> sendToContentScript url hs data = None"
  by (simp add: sendToContentScript_def Let_def)

text \<open>
  Claim C5, as amended. The normalizer returns an array as it is; for any other value that
  is not \<open>null\<close>, it returns the value of a truthy \<open>list\<close> property, array or not; failing
  that, it returns an object with a truthy id and an array of media as it is; every other
  input, among them \<open>{}\<close>, \<open>null\<close> and a string, gives \<open>null\<close>, and then nothing is sent and
  the stores are unchanged. The one exception of the normalizer (reading a property of
  \<open>null\<close>) is caught, and an exception in the record processing is caught as well.
\<close>

theorem payload_normalization:
  "(isArray data \<longrightarrow> processApiResponse data = data)
   \<and> (\<not> isArray data \<and> \<not> nullish data \<and> truthy (own_prop data ''list'') \<longrightarrow>
        processApiResponse data = own_prop data ''list'')
   \<and> (\<not> isArray data \<and> \<not> nullish data \<and> \<not> truthy (own_prop data ''list'')
        \<and> truthy (own_prop data ''id'') \<and> isArray (own_prop data ''media'') \<longrightarrow>
        processApiResponse data = data)
   \<and> (\<not> isArray data \<and> (nullish data \<or> \<not> truthy (own_prop data ''list'')
          \<and> \<not> (truthy (own_prop data ''id'') \<and> isArray (own_prop data ''media''))) \<longrightarrow>
        processApiResponse data = JNull \<and> delivered url hs data s = s)
   \<and> (processApiResponse_body data = None \<longleftrightarrow> nullish data)
   \<and> processApiResponse (JObj []) = JNull \<and> delivered url hs (JObj []) s = s
   \<and> processApiResponse JNull = JNull \<and> delivered url hs JNull s = s
   \<and> processApiResponse (JStr str) = JNull \<and> delivered url hs (JStr str) s = s
   \<and> fst (processApiData_body (JArr [JNull]) dm s) = Thrown
   \<and> processApiData (JArr [JNull]) dm s = s"
proof (intro conjI impI)
  show "processApiResponse data = data" if "isArray data"
    using that by (simp add: processApiResponse_def processApiResponse_body_def)
  show "processApiResponse data = own_prop data ''list''"
    if "\<not> isArray data \<and> \<not> nullish data \<and> truthy (own_prop data ''list'')"
    using that by (simp add: processApiResponse_def processApiResponse_body_def get_prop_def)
  show "processApiResponse data = data"
    if "\<not> isArray data \<and> \<not> nullish data \<and> \<not> truthy (own_prop data ''list'')
        \<and> truthy (own_prop data ''id'') \<and> isArray (own_prop data ''media'')"
    using that by (simp add: processApiResponse_def processApiResponse_body_def get_prop_def)
  have n: "processApiResponse data = JNull"
    if "\<not> isArray data \<and> (nullish data \<or> \<not> truthy (own_prop data ''list'')
          \<and> \<not> (truthy (own_prop data ''id'') \<and> isArray (own_prop data ''media'')))"
    using that
    by (auto simp: processApiResponse_def processApiResponse_body_def get_prop_def)
  then show "processApiResponse data = JNull"
    if "\<not> isArray data \<and> (nullish data \<or> \<not> truthy (own_prop data ''list'')
          \<and> \<not> (truthy (own_prop data ''id'') \<and> isArray (own_prop data ''media'')))"
    using that by simp
  show "delivered url hs data s = s"
    if "\<not> isArray data \<and> (nullish data \<or> \<not> truthy (own_prop data ''list'')
          \<and> \<not> (truthy (own_prop data ''id'') \<and> isArray (own_prop data ''media'')))"
    using n[OF that] by (simp add: delivered_def sendToContentScript_null)
  show "processApiResponse_body data = None \<longleftrightarrow> nullish data"
    by (cases data) (simp_all add: processApiResponse_body_def get_prop_def)
  show "processApiResponse (JObj []) = JNull" "processApiResponse JNull = JNull"
    "processApiResponse (JStr str) = JNull"
    by (simp_all add: processApiResponse_def processApiResponse_body_def get_prop_def)
  then show "delivered url hs (JObj []) s = s" "delivered url hs JNull s = s"
    "delivered url hs (JStr str) s = s"
    by (simp_all add: delivered_def sendToContentScript_null)
  show "fst (processApiData_body (JArr [JNull]) dm s) = Thrown"
    "processApiData (JArr [JNull]) dm s = s"
    by (simp_all add: processApiData_def processApiData_body_def processMediaItem_def get_prop_def)
qed

lemma normalization_examples:
  "\<not> isArray enveloped_object \<and> \<not> nullish enveloped_object
   \<and> truthy (own_prop enveloped_object ''list'')
   \<and> own_prop enveloped_object ''list'' = JObj [(''id'', JStr ''7''), (''media'', JArr [])]
   \<and> \<not> isArray scenario_payload \<and> \<not> nullish scenario_payload
   \<and> \<not> truthy (own_prop scenario_payload ''list'')
   \<and> truthy (own_prop scenario_payload ''id'') \<and> isArray (own_prop scenario_payload ''media'')
   \<and> \<not> isArray (JObj [(''id'', JNum 0), (''media'', JArr [])])
   \<and> \<not> truthy (own_prop (JObj [(''id'', JNum 0), (''media'', JArr [])]) ''list'')
   \<and> \<not> truthy (own_prop (JObj [(''id'', JNum 0), (''media'', JArr [])]) ''id'')
   \<and> isArray (JArr [scenario_payload])"
  by code_simp

theorem payload_normalization_witness:
  "processApiResponse (JArr [scenario_payload]) = JArr [scenario_payload]
   \<and> processApiResponse enveloped_object = JObj [(''id'', JStr ''7''), (''media'', JArr [])]
   \<and> processApiResponse scenario_payload = scenario_payload
   \<and> processApiResponse (JObj [(''id'', JNum 0), (''media'', JArr [])]) = JNull
   \<and> delivered ''https://onlyfans.com/api2/v2/posts/7'' [] (JObj [(''id'', JNum 0), (''media'', JArr [])])
        scenario_state = scenario_state
   \<and> processApiResponse_body JNull = None \<and> processApiResponse JNull = JNull"
proof -
  note t1 = payload_normalization [where data = "JArr [scenario_payload]"]
  note t2 = payload_normalization [where data = enveloped_object]
  note t3 = payload_normalization [where data = scenario_payload]
  note t4 = payload_normalization [where data = "JObj [(''id'', JNum 0), (''media'', JArr [])]"
      and url = "''https://onlyfans.com/api2/v2/posts/7''" and hs = "[]" and s = scenario_state]
  note t5 = payload_normalization [where data = JNull]
  from t1 normalization_examples
  have a: "processApiResponse (JArr [scenario_payload]) = JArr [scenario_payload]" by blast
  from t2 normalization_examples
  have b: "processApiResponse enveloped_object = JObj [(''id'', JStr ''7''), (''media'', JArr [])]"
    by simp
  from t3 normalization_examples
  have c: "processApiResponse scenario_payload = scenario_payload" by blast
  from t4 normalization_examples
  have d: "processApiResponse (JObj [(''id'', JNum 0), (''media'', JArr [])]) = JNull
     \<and> delivered ''https://onlyfans.com/api2/v2/posts/7'' []
          (JObj [(''id'', JNum 0), (''media'', JArr [])]) scenario_state = scenario_state"
    by blast
  from t5 have e: "processApiResponse_body JNull = None \<and> processApiResponse JNull = JNull"
    by simp
  from a b c d e show ?thesis by blast
qed

text \<open>
  Claim C5 as stated fails: an envelope whose \<open>list\<close> is an object, which is none of the
  three shapes, is unwrapped and its object is stored.
\<close>

theorem normalization_counterexample:
  "\<not> spec_shape enveloped_object
   \<and> mediaStore (delivered ''https://onlyfans.com/api2/v2/posts/7'' [] enveloped_object
        (fresh \<lparr>quality = QFull, autoCreateFolder = True\<rparr> ''of-downloader-k3x9q2a''))
     = [(JStr ''7'', JObj [(''id'', JStr ''7''), (''media'', JArr [])])]"
proof
  show "\<not> spec_shape enveloped_object"
    by (simp add: spec_shape_def enveloped_object_def)
  show "mediaStore (delivered ''https://onlyfans.com/api2/v2/posts/7'' [] enveloped_object
        (fresh \<lparr>quality = QFull, autoCreateFolder = True\<rparr> ''of-downloader-k3x9q2a''))
     = [(JStr ''7'', JObj [(''id'', JStr ''7''), (''media'', JArr [])])]"
    by code_simp
qed

section \<open>Properties of the stores\<close>

lemma forEach_preserves:
  assumes "\<And>x s. P s \<Longrightarrow> P (snd (f x s))" and "P s"
  shows "P (snd (forEach f xs s))"
  using assms(2)
proof (induction xs arbitrary: s)
  case Nil
  then show ?case by simp
next
  case (Cons x xs)
  obtain c s' where fx: "f x s = (c, s')" by (cases "f x s")
  with assms(1)[OF Cons.prems, of x] have "P s'" by simp
  with fx Cons.IH show ?case by (cases c) simp_all
qed

lemma same_media_video: "same_media s0 s \<Longrightarrow> same_media s0 (snd (processVideoMedia media s))"
  unfolding processVideoMedia_def Let_def
  by (rule forEach_preserves) (auto simp: same_media_def split: option.splits)

lemma same_media_image: "same_media s0 s \<Longrightarrow> same_media s0 (snd (processImageMedia media s))"
  unfolding processImageMedia_def
  by (rule forEach_preserves) (auto simp: same_media_def split: option.splits)

lemma same_media_item:
  assumes "same_media s0 s"
  shows "same_media s0 (snd (processMediaItem item VideoStore s))"
proof (cases "get_prop item ''id''")
  case None
  with assms show ?thesis by (simp add: processMediaItem_def)
next
  case (Some ident)
  define s1 where "s1 = (if truthy ident then store_set VideoStore ident item s else s)"
  have s1: "same_media s0 s1" using assms by (simp add: s1_def same_media_def store_set_def)
  show ?thesis
  proof (cases "own_prop item ''media''")
    case (JArr entries)
    have "same_media s0 (snd (forEach
                     (\<lambda>media s.
                        case get_prop media ''type'' of
                          None \<Rightarrow> (Thrown, s)
                        | Some t \<Rightarrow>
                            if t = JStr ''video'' then processVideoMedia media s
                            else processImageMedia media s)
                     entries s1))"
      by (rule forEach_preserves[where P = "same_media s0"])
         (auto simp: s1 same_media_video same_media_image split: option.splits)
    with Some JArr show ?thesis by (simp add: processMediaItem_def Let_def s1_def)
  qed (use Some s1 in \<open>simp_all add: processMediaItem_def Let_def s1_def\<close>)
qed

lemma same_media_dm: "same_media s (processApiData data True s)"
proof -
  have r: "same_media s s" by (simp add: same_media_def)
  show ?thesis
  proof (cases data)
    case (JArr items)
    have "same_media s (snd (forEach (\<lambda>item. processMediaItem item VideoStore) items s))"
      by (rule forEach_preserves[where P = "same_media s"]) (simp_all add: r same_media_item)
    with JArr show ?thesis by (simp add: processApiData_def processApiData_body_def)
  qed (use r same_media_item[OF r] in
        \<open>auto simp: processApiData_def processApiData_body_def split: option.splits\<close>)
qed

lemma storeLookup_frame:
  assumes a: "mediaStore s' = mediaStore s" and b: "cs_settings s' = cs_settings s"
  shows "storeLookup s' post = storeLookup s post"
  unfolding storeLookup_def a b by (rule refl)

lemma extractVideoUrl_frame:
  assumes a: "mediaStore s' = mediaStore s" and b: "cs_settings s' = cs_settings s"
  shows "extractVideoUrl s' wrapper post = extractVideoUrl s wrapper post"
  unfolding extractVideoUrl_def storeLookup_frame[OF a b] by (rule refl)

lemma storeLookup_needs_key:
  assumes "storeLookup st post \<noteq> NotFound"
  shows "\<exists>p postId. post = Some p \<and> getAttribute p ''data-id'' = Some postId \<and> postId \<noteq> []
           \<and> map_of (mediaStore st) (JStr postId) \<noteq> None"
proof (cases post)
  case None
  with assms show ?thesis by (simp add: storeLookup_def str_of_def)
next
  case (Some p)
  with assms show ?thesis
    by (cases "getAttribute p ''data-id''") (auto simp: storeLookup_def str_of_def Let_def split: if_splits)
qed

lemma dm_scenario:
  "storeLookup scenario_state (Some (post_with_id ''42'')) = Found (JStr ''https://x/720.mp4'')
   \<and> videoStore (processApiData (JArr [scenario_payload]) True
         (fresh \<lparr>quality = Q720, autoCreateFolder = True\<rparr> ''of-downloader-k3x9q2a''))
       = [(JStr ''42'', scenario_payload)]
   \<and> map fst (imageStore (processApiData (JArr [scenario_payload]) True
         (fresh \<lparr>quality = Q720, autoCreateFolder = True\<rparr> ''of-downloader-k3x9q2a'')))
       = [JStr ''https://x/p.jpg'']"
  by code_simp

text \<open>
  Claim C10. The result of \<open>extractVideoUrl\<close>, the only resolution function that takes
  the stores, does not depend on \<open>videoStore\<close> or \<open>imageStore\<close>; its store lookup succeeds
  or throws only for a post whose \<open>data-id\<close> is a key of \<open>mediaStore\<close>; a payload flagged
  \<open>isForDm\<close> leaves \<open>mediaStore\<close> as it was, so it changes no resolution, and from the
  fresh stores the lookup finds nothing after it.
\<close>

theorem unread_stores:
  "extractVideoUrl (st\<lparr>videoStore := vs, imageStore := imgs\<rparr>) wrapper post
     = extractVideoUrl st wrapper post
   \<and> (storeLookup st post \<noteq> NotFound \<longrightarrow>
        (\<exists>p postId. post = Some p \<and> getAttribute p ''data-id'' = Some postId \<and> postId \<noteq> []
           \<and> map_of (mediaStore st) (JStr postId) \<noteq> None))
   \<and> mediaStore (processApiData data True st) = mediaStore st
   \<and> extractVideoUrl (processApiData data True st) wrapper post = extractVideoUrl st wrapper post
   \<and> storeLookup (processApiData data True (fresh settings cls)) post = NotFound"
proof (intro conjI impI)
  show "extractVideoUrl (st\<lparr>videoStore := vs, imageStore := imgs\<rparr>) wrapper post
     = extractVideoUrl st wrapper post"
    by (rule extractVideoUrl_frame) simp_all
  show "\<exists>p postId. post = Some p \<and> getAttribute p ''data-id'' = Some postId \<and> postId \<noteq> []
           \<and> map_of (mediaStore st) (JStr postId) \<noteq> None"
    if "storeLookup st post \<noteq> NotFound" using that by (rule storeLookup_needs_key)
  have sm: "same_media st (processApiData data True st)" by (rule same_media_dm)
  then show "mediaStore (processApiData data True st) = mediaStore st"
    by (simp add: same_media_def)
  from sm show "extractVideoUrl (processApiData data True st) wrapper post
      = extractVideoUrl st wrapper post"
    by (intro extractVideoUrl_frame) (simp_all add: same_media_def)
  have "same_media (fresh settings cls) (processApiData data True (fresh settings cls))"
    by (rule same_media_dm)
  then have "storeLookup (processApiData data True (fresh settings cls)) post
      = storeLookup (fresh settings cls) post"
    by (intro storeLookup_frame) (simp_all add: same_media_def)
  then show "storeLookup (processApiData data True (fresh settings cls)) post = NotFound"
    by (simp add: storeLookup_def fresh_def)
qed

theorem unread_stores_witness:
  "storeLookup scenario_state (Some (post_with_id ''42'')) \<noteq> NotFound
   \<and> (\<exists>p postId. Some (post_with_id ''42'') = Some p \<and> getAttribute p ''data-id'' = Some postId
         \<and> postId \<noteq> [] \<and> map_of (mediaStore scenario_state) (JStr postId) \<noteq> None)
   \<and> videoStore (processApiData (JArr [scenario_payload]) True
         (fresh \<lparr>quality = Q720, autoCreateFolder = True\<rparr> ''of-downloader-k3x9q2a''))
       = [(JStr ''42'', scenario_payload)]
   \<and> storeLookup (processApiData (JArr [scenario_payload]) True
         (fresh \<lparr>quality = Q720, autoCreateFolder = True\<rparr> ''of-downloader-k3x9q2a''))
         (Some (post_with_id ''42'')) = NotFound"
  using unread_stores [where st = scenario_state and post = "Some (post_with_id ''42'')"
      and data = "JArr [scenario_payload]"
      and settings = "\<lparr>quality = Q720, autoCreateFolder = True\<rparr>"
      and cls = "''of-downloader-k3x9q2a''"]
    dm_scenario
  by simp

section \<open>Properties of the store lookup\<close>

lemma map_of_assign: "map_of (assign l k v) k' = (if k' = k then Some v else map_of l k')"
  by (induction l k v rule: assign.induct) auto











lemma show_nat_240: "show_nat 240 = ''240''" and show_nat_720: "show_nat 720 = ''720''"
  by (simp_all add: show_nat.simps digit_char_def)

lemma chain_index_falsy: "\<not> truthy v \<Longrightarrow> chain_index v n = JUndefined"
  by (cases v) (simp_all add: chain_index_def)

lemma chain_index_truthy: "truthy v \<Longrightarrow> chain_index v n = own_index v n"
  by (cases v) (simp_all add: chain_index_def)

lemma videoMap_of_lookup:
  "map_of (videoMap_of m) ''full'' =
     (if truthy (chain_prop (own_prop m ''source'') ''source'')
      then Some (chain_prop (own_prop m ''source'') ''source'') else None)"
  "map_of (videoMap_of m) ''240'' =
     (if truthy (chain_index (own_prop m ''videoSources'') 240)
      then Some (chain_index (own_prop m ''videoSources'') 240) else None)"
  "map_of (videoMap_of m) ''720'' =
     (if truthy (chain_index (own_prop m ''videoSources'') 720)
      then Some (chain_index (own_prop m ''videoSources'') 720) else None)"
  "map_of (videoMap_of m) ''preview'' = None"
  by (cases "truthy (own_prop m ''videoSources'')";
      simp add: videoMap_of_def Let_def map_of_assign chain_index_falsy chain_index_truthy)+

lemma qualityUrl_map:
  "qualityUrl q m =
     (case map_of (videoMap_of m) (tier_key q) of
        Some u \<Rightarrow> u
      | None \<Rightarrow> chain_prop (own_prop m ''source'') ''source'')"
  by (cases q) (simp_all add: qualityUrl_def Let_def videoMap_of_lookup)















section \<open>Properties of the resolution cascade\<close>

lemma firstSrc_nonempty: "firstSrc es = Some u \<Longrightarrow> u \<noteq> []"
  by (induction es) (auto split: if_splits)

lemma scanVideos_nonempty: "scanVideos vs = Some u \<Longrightarrow> u \<noteq> []"
  by (induction vs) (auto split: if_splits option.splits dest: firstSrc_nonempty)

lemma scanData_nonempty: "scanData es = Some u \<Longrightarrow> u \<noteq> []"
  by (induction es) (auto split: if_splits)

lemma found_scan:
  "found_url (nested_scan wrapper) =
     (case scanVideos (querySelectorAll (has_tag ''video'') wrapper) of
        Some u \<Rightarrow> Found (JStr u) | None \<Rightarrow> NotFound)"
  by (auto simp: found_url_def nested_scan_def str_of_def split: option.splits
      dest: scanVideos_nonempty)

lemma found_data:
  "found_url (nested_data wrapper) =
     (case scanData (querySelectorAll sel_data wrapper) of
        Some u \<Rightarrow> Found (JStr u) | None \<Rightarrow> NotFound)"
  by (auto simp: found_url_def nested_data_def str_of_def split: option.splits
      dest: scanData_nonempty)










































section \<open>Properties of the injection of controls\<close>

lemma descendants_appendChild:
  "descendants (appendChild parent child) = descendants parent @ child # descendants child"
  by (cases parent) (simp add: appendChild_def)

lemma controls_of_container: "controls st (createDownloadButtonContainer st ms) = []"
  by (simp add: controls_def querySelectorAll_def createDownloadButtonContainer_def has_class_def
      filter_concat comp_def)

lemma container_is_control: "has_class (uniqueClass st) (createDownloadButtonContainer st ms)"
  by (simp add: createDownloadButtonContainer_def has_class_def)

lemma handleNewPost_adds:
  assumes "extractMediaFromPost st creator near post = Some ms" "ms \<noteq> []"
  shows "\<exists>post'. handleNewPost st creator near post = Some post'
     \<and> length (controls st post') = Suc (length (controls st post))"
proof -
  have "controls st (appendChild post (createDownloadButtonContainer st ms)) =
      controls st post @ [createDownloadButtonContainer st ms]"
    using controls_of_container[of st ms] container_is_control[of st ms]
    by (simp add: controls_def querySelectorAll_def descendants_appendChild)
  with assms show ?thesis by (simp add: handleNewPost_def)
qed

lemma descendants_of_container:
  "descendants (createDownloadButtonContainer st ms)
     = map (\<lambda>group. Element ''button'' [] [] [] []) (groupMediaByType ms)"
  by (simp add: createDownloadButtonContainer_def comp_def)

lemma mainObserver_addedPost_adds:
  assumes "extractMediaFromPost st creator near post = Some ms" "ms \<noteq> []"
    "querySelector sel_new_media post = None"
    "uniqueClass st \<notin> {''b-post__media__img'', ''b-post__media__video''}"
  shows "\<exists>post'. mainObserver_addedPost st creator near post = Some post'
     \<and> length (controls st post') = Suc (length (controls st post))"
proof -
  let ?c = "createDownloadButtonContainer st ms"
  from assms(3) have none: "querySelectorAll sel_new_media post = []"
    by (simp add: querySelector_def split: list.splits)
  have c: "\<not> sel_new_media ?c"
    using assms(4) by (auto simp: sel_new_media_def has_class_def createDownloadButtonContainer_def)
  have inner: "filter sel_new_media (descendants ?c) = []"
    by (simp add: descendants_of_container filter_map comp_def sel_new_media_def has_class_def)
  have "querySelectorAll sel_new_media (appendChild post ?c) = []"
    using none c inner by (simp add: querySelectorAll_def descendants_appendChild)
  then have "querySelector sel_new_media (appendChild post ?c) = None"
    by (simp add: querySelector_def)
  with assms(1,2) have "mainObserver_addedPost st creator near post = handleNewPost st creator near post"
    by (simp add: mainObserver_addedPost_def handleNewPost_def)
  with handleNewPost_adds[OF assms(1,2)] show ?thesis by simp
qed

text \<open>
  Claim C8, at the input where the code departs from it. A newly inserted post whose only
  medium is a video wrapper with a playable video, with a tools container and without an
  element of the class \<open>b-post__media__img\<close> or \<open>b-post__media__video\<close>. The pass of
  \<open>injectDownloadButtons\<close> that the first observer starts gives the tools container a
  control and the wrapper a control. The callback of the main observer then calls
  \<open>handleNewPost\<close>, which has no test for the marker and appends a further control to the
  post, and does not call \<open>handleNewMedia\<close>, which would have removed the controls first:
  the post carries three, one of them a child of the post. Later passes leave it so. On
  a post with an image \<open>handleNewPost\<close> adds a second control as well, but the callback
  calls \<open>handleNewMedia\<close> next, and one control is left. The lemma before shows that the
  callback adds a control to any post with media and without an element of the two
  classes, whatever the post carries.
\<close>

theorem second_control_stacked:
  "has_class ''b-post'' video_post
   \<and> querySelectorAll (has_class ''video-wrapper'') video_post = [video_player]
   \<and> children video_post ! 0 = video_player
   \<and> querySelector sel_new_media video_post = None
   \<and> map_option (\<lambda>p. length (controls scenario_state p))
        (handleFeedPosts_post scenario_state ''bob'' no_layout video_post) = Some 1
   \<and> map_option (\<lambda>p. length (controls scenario_state p))
        (injectDownloadButtons_wrapperPost scenario_state ''bob'' no_layout video_post) = Some 2
   \<and> map_option (\<lambda>p. length (controls scenario_state p))
        (Option.bind (injectDownloadButtons_wrapperPost scenario_state ''bob'' no_layout video_post)
           (mainObserver_addedPost scenario_state ''bob'' no_layout)) = Some 3
   \<and> map_option (\<lambda>p. length (filter (has_class (uniqueClass scenario_state)) (children p)))
        (Option.bind (injectDownloadButtons_wrapperPost scenario_state ''bob'' no_layout video_post)
           (mainObserver_addedPost scenario_state ''bob'' no_layout)) = Some 1
   \<and> Option.bind
        (Option.bind (injectDownloadButtons_wrapperPost scenario_state ''bob'' no_layout video_post)
           (mainObserver_addedPost scenario_state ''bob'' no_layout))
        (injectDownloadButtons_wrapperPost scenario_state ''bob'' no_layout)
       = Option.bind (injectDownloadButtons_wrapperPost scenario_state ''bob'' no_layout video_post)
           (mainObserver_addedPost scenario_state ''bob'' no_layout)
   \<and> has_class ''b-post'' image_post
   \<and> querySelector sel_new_media image_post \<noteq> None
   \<and> map_option (\<lambda>p. length (controls scenario_state p))
        (Option.bind (handleFeedPosts_post scenario_state ''bob'' no_layout image_post)
           (handleNewPost scenario_state ''bob'' no_layout)) = Some 2
   \<and> map_option (\<lambda>p. length (controls scenario_state p))
        (Option.bind (handleFeedPosts_post scenario_state ''bob'' no_layout image_post)
           (mainObserver_addedPost scenario_state ''bob'' no_layout)) = Some 1"
  by code_simp

end
